theory Spec2Isabelle
  imports Complex_Main "HOL-Library.Disjoint_Sets"
begin

section \<open>Common data\<close>

text \<open>
  Byte strings (\<^verbatim>\<open>bytes\<close>) and text are both lists of 8-bit characters.
  Exceptions of the Python runtime that the code can meet are values of \<open>py_error\<close>.
\<close>

type_synonym bytes = "char list"

datatype py_error =
  FileNotFoundError | OSError | ValueError | UnicodeDecodeError | IndexError
  | OverflowError | SocketTimeout | ConnectionError

text \<open>\<^verbatim>\<open>CHUNK_SIZE = 1024 * 1024\<close>\<close>

definition CHUNK_SIZE :: int where
  "CHUNK_SIZE = 1024 * 1024"

text \<open>The file system: a path either names a regular file with its content or nothing.\<close>

type_synonym filesystem = "string \<rightharpoonup> bytes"

section \<open>Chunk codec\<close>

text \<open>
  The hashing loop shared by \<^verbatim>\<open>get_file_info\<close> and the integrity check:
  \<^verbatim>\<open>
  while True:
      chunk = f.read(CHUNK_SIZE)
      if not chunk: break
      sha1.update(chunk)
  \<close>
  The first argument is what is left of the file behind the read position, the second
  the bytes fed to the hash object so far; \<^verbatim>\<open>hexdigest\<close> is a function of the latter.
\<close>

function hash_stream :: "bytes \<Rightarrow> bytes \<Rightarrow> bytes" where
  "hash_stream rest fed =
     (let chunk = take (nat CHUNK_SIZE) rest in
      if chunk = [] then fed
      else hash_stream (drop (nat CHUNK_SIZE) rest) (fed @ chunk))"
  by pat_completeness auto
termination
  by (relation "measure (\<lambda>(rest, fed). length rest)") (auto simp: CHUNK_SIZE_def)

declare hash_stream.simps [simp del]

text \<open>
  \<^verbatim>\<open>get_file_info(file_path)\<close>: size, digest and chunk count of a file on disk. The
  digest function of the hash object (\<^verbatim>\<open>hashlib.sha1\<close>) is a parameter.
\<close>

definition get_file_info ::
  "(bytes \<Rightarrow> string) \<Rightarrow> filesystem \<Rightarrow> string \<Rightarrow> py_error + (string \<times> int \<times> int)" where
  "get_file_info hexdigest fs file_path =
     (case fs file_path of
        None \<Rightarrow> Inl FileNotFoundError
      | Some content \<Rightarrow>
          let file_size = int (length content);
              file_hash = hexdigest (hash_stream content []);
              num_chunks = (file_size + CHUNK_SIZE - 1) div CHUNK_SIZE
          in Inr (file_hash, file_size, num_chunks))"

text \<open>The downloader's own computation of the chunk count from the tracker's \<^verbatim>\<open>file_size\<close>.\<close>

definition download_num_chunks :: "int \<Rightarrow> int" where
  "download_num_chunks file_size = (file_size + CHUNK_SIZE - 1) div CHUNK_SIZE"

text \<open>
  The byte range of chunk \<open>i\<close> of a file of \<open>S\<close> bytes, in the words of the
  specification: \<open>[i * CHUNK_SIZE, min ((i + 1) * CHUNK_SIZE, S))\<close>.
\<close>

definition chunk_range :: "int \<Rightarrow> int \<Rightarrow> int set" where
  "chunk_range S i = {i * CHUNK_SIZE ..< min ((i + 1) * CHUNK_SIZE) S}"

section \<open>Chunk server\<close>

text \<open>What a connection handler does to its socket and to the disk, in order.\<close>

datatype event = Sendall bytes | Seek int | Read nat | Close

text \<open>\<^verbatim>\<open>n.to_bytes(4, byteorder='big')\<close>\<close>

definition to_bytes4_big :: "nat \<Rightarrow> py_error + bytes" where
  "to_bytes4_big n =
     (if n < 2 ^ 32
      then Inr [char_of (n div 2 ^ 24), char_of (n div 2 ^ 16), char_of (n div 2 ^ 8), char_of n]
      else Inl OverflowError)"

text \<open>
  The body of the \<^verbatim>\<open>try\<close> block of \<^verbatim>\<open>handle_peer_connection\<close>. The request is given
  as the token list \<^verbatim>\<open>conn.recv(1024).decode().strip().split()\<close>, or the exception that
  receiving or decoding raised; \<^verbatim>\<open>int\<close> is the runtime's conversion, \<open>None\<close> where it
  raises \<^verbatim>\<open>ValueError\<close>. Seeking to a negative offset raises \<^verbatim>\<open>OSError\<close>. The result
  is the events so far and the exception that left the block, if any.
\<close>

definition handle_request ::
  "(string \<Rightarrow> int option) \<Rightarrow> filesystem \<Rightarrow> (string \<rightharpoonup> string) \<Rightarrow> py_error + string list
     \<Rightarrow> event list \<times> py_error option" where
  "handle_request to_int fs hosted_files request =
     (case request of
        Inl e \<Rightarrow> ([], Some e)
      | Inr req \<Rightarrow>
          (case req of
             [command, file_hash, chunk_str] \<Rightarrow>
               if command \<noteq> ''GET_CHUNK'' then ([], None)
               else
                 (case to_int chunk_str of
                    None \<Rightarrow> ([], Some ValueError)
                  | Some chunk_id \<Rightarrow>
                      (case hosted_files file_hash of
                         None \<Rightarrow> ([Sendall ''ERROR: File not found''], None)
                       | Some file_path \<Rightarrow>
                           (case fs file_path of
                              None \<Rightarrow> ([], Some FileNotFoundError)
                            | Some content \<Rightarrow>
                                let file_size = int (length content);
                                    num_chunks = (file_size + CHUNK_SIZE - 1) div CHUNK_SIZE
                                in
                                  if chunk_id \<ge> num_chunks
                                  then ([Sendall ''ERROR: Chunk out of range''], None)
                                  else
                                    let offset = chunk_id * CHUNK_SIZE in
                                    if offset < 0 then ([Seek offset], Some OSError)
                                    else
                                      let chunk_data =
                                            take (nat CHUNK_SIZE) (drop (nat offset) content)
                                      in
                                        (case to_bytes4_big (length chunk_data) of
                                           Inl e \<Rightarrow>
                                             ([Seek offset, Read (nat CHUNK_SIZE)], Some e)
                                         | Inr chunk_size_bytes \<Rightarrow>
                                             ([Seek offset, Read (nat CHUNK_SIZE),
                                               Sendall chunk_size_bytes, Sendall chunk_data],
                                              None)))))
           | _ \<Rightarrow> ([], None)))"

text \<open>
  The whole handler: the \<^verbatim>\<open>except\<close> clause answers any exception with
  \<^verbatim>\<open>ERROR: Server error\<close>, the \<^verbatim>\<open>finally\<close> clause closes the connection.
\<close>

definition handle_peer_connection ::
  "(string \<Rightarrow> int option) \<Rightarrow> filesystem \<Rightarrow> (string \<rightharpoonup> string) \<Rightarrow> py_error + string list
     \<Rightarrow> event list" where
  "handle_peer_connection to_int fs hosted_files request =
     (case handle_request to_int fs hosted_files request of
        (evs, None) \<Rightarrow> evs @ [Close]
      | (evs, Some e) \<Rightarrow> evs @ [Sendall ''ERROR: Server error'', Close])"

text \<open>The bytes a handler put on the wire, and whether it read from the file.\<close>

fun sent :: "event list \<Rightarrow> bytes" where
  "sent [] = []"
| "sent (Sendall b # evs) = b @ sent evs"
| "sent (_ # evs) = sent evs"

fun is_read :: "event \<Rightarrow> bool" where
  "is_read (Read _) = True"
| "is_read _ = False"

text \<open>
  A decimal conversion for closed examples, after \<^verbatim>\<open>int\<close> on ASCII text without blanks:
  an optional sign, then digits, where single underscores may stand between digits.
\<close>

fun digit_val :: "char \<Rightarrow> nat option" where
  "digit_val c =
     (let v = (of_char c :: nat) in if 48 \<le> v \<and> v \<le> 57 then Some (v - 48) else None)"

fun dec_nat :: "string \<Rightarrow> nat \<Rightarrow> bool \<Rightarrow> nat option" where
  "dec_nat [] acc after_digit = (if after_digit then Some acc else None)"
| "dec_nat (c # cs) acc after_digit =
     (if c = CHR ''_'' then (if after_digit then dec_nat cs acc False else None)
      else (case digit_val c of None \<Rightarrow> None | Some d \<Rightarrow> dec_nat cs (acc * 10 + d) True))"

fun dec_int :: "string \<Rightarrow> int option" where
  "dec_int [] = None"
| "dec_int (c # cs) =
     (if c = CHR ''-'' then map_option (\<lambda>n. - int n) (dec_nat cs 0 False)
      else if c = CHR ''+'' then map_option int (dec_nat cs 0 False)
      else map_option int (dec_nat (c # cs) 0 False))"

section \<open>Chunk downloader\<close>

text \<open>
  The downloader's side of one connection. Connecting or sending the request may fail;
  otherwise the peer's reply is a byte stream that ends when the peer closes, and each
  \<^verbatim>\<open>recv(n)\<close> returns what the schedule says: \<open>Deliver k\<close> hands over at most \<open>k\<close>
  (at least one, at most \<open>n\<close>) of the bytes still to come, and the empty byte string once
  the stream is used up; a timeout or a socket error raises. When the schedule is used
  up every \<^verbatim>\<open>recv\<close> delivers all it was asked for.
\<close>

datatype seg = Deliver nat | RecvTimeout | RecvError

datatype conn = Failed py_error | Established bytes "seg list"

fun sock_recv :: "nat \<Rightarrow> bytes \<Rightarrow> seg list \<Rightarrow> (py_error + bytes) \<times> bytes \<times> seg list" where
  "sock_recv n stream [] = (Inr (take n stream), drop n stream, [])"
| "sock_recv n stream (Deliver k # segs) =
     (let m = min n (max 1 k) in (Inr (take m stream), drop m stream, segs))"
| "sock_recv n stream (RecvTimeout # segs) = (Inl SocketTimeout, stream, segs)"
| "sock_recv n stream (RecvError # segs) = (Inl ConnectionError, stream, segs)"

text \<open>\<^verbatim>\<open>int.from_bytes(size_bytes, byteorder='big')\<close>\<close>

definition from_bytes_big :: "bytes \<Rightarrow> nat" where
  "from_bytes_big bs = foldl (\<lambda>acc b. acc * 256 + of_char b) 0 bs"

text \<open>
  \<^verbatim>\<open>
  while remaining > 0:
      chunk = s.recv(min(remaining, 65536))
      if not chunk: break
      data += chunk
      remaining -= len(chunk)
  \<close>
\<close>

function recv_loop :: "nat \<Rightarrow> bytes \<Rightarrow> bytes \<Rightarrow> seg list \<Rightarrow> py_error + bytes" where
  "recv_loop remaining data stream segs =
     (if remaining > 0 then
        (case sock_recv (min remaining 65536) stream segs of
           (Inl e, stream', segs') \<Rightarrow> Inl e
         | (Inr chunk, stream', segs') \<Rightarrow>
             if chunk = [] then Inr data
             else recv_loop (remaining - length chunk) (data @ chunk) stream' segs')
      else Inr data)"
  by pat_completeness auto
termination
proof (relation "measure (\<lambda>(remaining, data, stream, segs). length stream)", goal_cases)
  case 1
  show ?case by simp
next
  case (2 remaining data stream segs x1 x2 chunk y1 y2)
  then show ?case
    by (cases "(min remaining 65536, stream, segs)" rule: sock_recv.cases)
       (auto simp: Let_def)
qed

declare recv_loop.simps [simp del]

text \<open>
  \<^verbatim>\<open>download_chunk(ip, port, file_hash, chunk_id)\<close>. The network decides what a
  connection to a peer yields, from the requests made so far and the present one; the
  request made is appended to that history. Every exception ends in \<^verbatim>\<open>return None\<close>.
\<close>

type_synonym call = "string \<times> int \<times> string \<times> int"

type_synonym network = "call list \<Rightarrow> call \<Rightarrow> conn"

definition download_chunk ::
  "network \<Rightarrow> call list \<Rightarrow> string \<Rightarrow> int \<Rightarrow> string \<Rightarrow> int \<Rightarrow> bytes option \<times> call list" where
  "download_chunk net history peer_ip peer_port file_hash chunk_id =
     (let this = (peer_ip, peer_port, file_hash, chunk_id);
          result =
            (case net history this of
               Failed e \<Rightarrow> None
             | Established stream segs \<Rightarrow>
                 (case sock_recv 4 stream segs of
                    (Inl e, stream1, segs1) \<Rightarrow> None
                  | (Inr size_bytes, stream1, segs1) \<Rightarrow>
                      if length size_bytes < 4 then None
                      else
                        let chunk_size = from_bytes_big size_bytes in
                        (case recv_loop chunk_size [] stream1 segs1 of
                           Inl e \<Rightarrow> None
                         | Inr data \<Rightarrow>
                             if length data \<noteq> chunk_size then None else Some data)))
      in (result, history @ [this]))"

definition download_chunk_wrapper ::
  "network \<Rightarrow> call list \<Rightarrow> string \<Rightarrow> int \<Rightarrow> string \<Rightarrow> int
     \<Rightarrow> (int \<times> bytes option) \<times> call list" where
  "download_chunk_wrapper net history peer_ip peer_port file_hash chunk_id =
     (let (data, history') = download_chunk net history peer_ip peer_port file_hash chunk_id
      in ((chunk_id, data), history'))"

section \<open>Availability index and download planner\<close>

record peer_info =
  ip :: string
  port :: int

record peer = peer_info +
  chunks :: "int list"

type_synonym availability = "int \<rightharpoonup> peer_info list"

text \<open>\<^verbatim>\<open>chunk_availability.get(chunk_id, [])\<close>\<close>

definition candidates :: "availability \<Rightarrow> int \<Rightarrow> peer_info list" where
  "candidates chunk_availability chunk_id =
     (case chunk_availability chunk_id of None \<Rightarrow> [] | Some available_peers \<Rightarrow> available_peers)"

text \<open>
  The inner loop of \<^verbatim>\<open>build_chunk_availability_map\<close>; indexing the
  \<^verbatim>\<open>defaultdict(list)\<close> creates a missing key with the empty list before appending.
\<close>

fun add_peer_chunks :: "peer_info \<Rightarrow> int \<Rightarrow> int list \<Rightarrow> availability \<Rightarrow> availability" where
  "add_peer_chunks info num_chunks [] chunk_availability = chunk_availability"
| "add_peer_chunks info num_chunks (chunk_id # rest) chunk_availability =
     add_peer_chunks info num_chunks rest
       (if chunk_id < num_chunks
        then chunk_availability(chunk_id \<mapsto> candidates chunk_availability chunk_id @ [info])
        else chunk_availability)"

fun add_peers :: "peer list \<Rightarrow> int \<Rightarrow> availability \<Rightarrow> availability" where
  "add_peers [] num_chunks chunk_availability = chunk_availability"
| "add_peers (p # rest) num_chunks chunk_availability =
     add_peers rest num_chunks
       (add_peer_chunks \<lparr>ip = ip p, port = port p\<rparr> num_chunks (chunks p) chunk_availability)"

definition build_chunk_availability_map :: "peer list \<Rightarrow> int \<Rightarrow> availability" where
  "build_chunk_availability_map peers num_chunks = add_peers peers num_chunks Map.empty"

text \<open>
  \<^verbatim>\<open>random.choice(seq)\<close> on a non-empty sequence, from the generator's raw draw. The
  generator is the sequence of its draws; the planner counts the draws it has used.
\<close>

definition choice :: "nat \<Rightarrow> 'a list \<Rightarrow> 'a" where
  "choice r seq = seq ! (r mod length seq)"

type_synonym task = "string \<times> int \<times> int"

fun plan_loop ::
  "(nat \<Rightarrow> nat) \<Rightarrow> availability \<Rightarrow> int list \<Rightarrow> task list \<times> nat \<Rightarrow> task list \<times> nat" where
  "plan_loop rnd chunk_availability [] (download_tasks, used) = (download_tasks, used)"
| "plan_loop rnd chunk_availability (chunk_id # rest) (download_tasks, used) =
     (let available_peers = candidates chunk_availability chunk_id in
      if available_peers = [] then plan_loop rnd chunk_availability rest (download_tasks, used)
      else
        let selected_peer = choice (rnd used) available_peers in
        plan_loop rnd chunk_availability rest
          (download_tasks @ [(ip selected_peer, port selected_peer, chunk_id)], used + 1))"

definition create_download_plan :: "(nat \<Rightarrow> nat) \<Rightarrow> availability \<Rightarrow> int \<Rightarrow> task list" where
  "create_download_plan rnd chunk_availability num_chunks =
     fst (plan_loop rnd chunk_availability [0..num_chunks - 1] ([], 0))"

section \<open>Download orchestrator\<close>

text \<open>Truth value of \<^verbatim>\<open>data\<close>: neither \<^verbatim>\<open>None\<close> nor the empty byte string.\<close>

definition truthy :: "bytes option \<Rightarrow> bool" where
  "truthy data = (case data of None \<Rightarrow> False | Some d \<Rightarrow> d \<noteq> [])"

text \<open>The position a Python list index denotes, if any (negative indices count from the end).\<close>

definition list_index :: "'a list \<Rightarrow> int \<Rightarrow> nat option" where
  "list_index xs i =
     (let n = int (length xs) in
      if 0 \<le> i \<and> i < n then Some (nat i)
      else if - n \<le> i \<and> i < 0 then Some (nat (n + i))
      else None)"

record download_state =
  output_chunks :: "bytes option list"
  successful_downloads :: nat
  failed_chunks :: "int list"
  history :: "call list"

text \<open>
  The worker pool running \<^verbatim>\<open>download_chunk_wrapper\<close> on the planned tasks. The tasks
  are taken in the order of the list, which is also the order in which their results are
  handed to the collecting loop: one of the schedules the pool may follow.
\<close>

fun run_tasks ::
  "network \<Rightarrow> string \<Rightarrow> task list \<Rightarrow> call list \<Rightarrow> (int \<times> bytes option) list \<times> call list" where
  "run_tasks net file_hash [] h = ([], h)"
| "run_tasks net file_hash ((peer_ip, peer_port, cid) # rest) h =
     (let (r, h1) = download_chunk_wrapper net h peer_ip peer_port file_hash cid;
          (rs, h2) = run_tasks net file_hash rest h1
      in (r # rs, h2))"

text \<open>
  \<^verbatim>\<open>
  for future in as_completed(future_to_chunk):
      chunk_id, data = future.result()
      if data and output_chunks[chunk_id] is None:
          output_chunks[chunk_id] = data
          successful_downloads += 1
      else:
          failed_chunks.append(chunk_id)
  \<close>
\<close>

fun collect_results :: "(int \<times> bytes option) list \<Rightarrow> download_state \<Rightarrow> py_error + download_state" where
  "collect_results [] st = Inr st"
| "collect_results ((chunk_id, data) # rest) st =
     (if truthy data then
        (case list_index (output_chunks st) chunk_id of
           None \<Rightarrow> Inl IndexError
         | Some k \<Rightarrow>
             if output_chunks st ! k = None
             then collect_results rest
                    (st\<lparr>output_chunks := (output_chunks st)[k := data],
                        successful_downloads := successful_downloads st + 1\<rparr>)
             else collect_results rest (st\<lparr>failed_chunks := failed_chunks st @ [chunk_id]\<rparr>))
      else collect_results rest (st\<lparr>failed_chunks := failed_chunks st @ [chunk_id]\<rparr>))"

text \<open>
  The retry of one failed chunk:
  \<^verbatim>\<open>
  for peer in available_peers:
      data = download_chunk(peer["ip"], peer["port"], file_hash, chunk_id)
      if data:
          output_chunks[chunk_id] = data
          successful_downloads += 1
          break
  \<close>
\<close>

fun retry_chunk ::
  "network \<Rightarrow> string \<Rightarrow> int \<Rightarrow> peer_info list \<Rightarrow> download_state \<Rightarrow> py_error + download_state" where
  "retry_chunk net file_hash chunk_id [] st = Inr st"
| "retry_chunk net file_hash chunk_id (p # rest) st =
     (let (data, h) = download_chunk net (history st) (ip p) (port p) file_hash chunk_id;
          st1 = st\<lparr>history := h\<rparr>
      in
        if truthy data then
          (case list_index (output_chunks st1) chunk_id of
             None \<Rightarrow> Inl IndexError
           | Some k \<Rightarrow>
               Inr (st1\<lparr>output_chunks := (output_chunks st1)[k := data],
                        successful_downloads := successful_downloads st1 + 1\<rparr>))
        else retry_chunk net file_hash chunk_id rest st1)"

text \<open>The retry pass over \<^verbatim>\<open>failed_chunks\<close>, one chunk after the other.\<close>

fun retry_failed ::
  "network \<Rightarrow> string \<Rightarrow> availability \<Rightarrow> int list \<Rightarrow> download_state \<Rightarrow> py_error + download_state" where
  "retry_failed net file_hash chunk_availability [] st = Inr st"
| "retry_failed net file_hash chunk_availability (chunk_id # rest) st =
     (case retry_chunk net file_hash chunk_id (candidates chunk_availability chunk_id) st of
        Inl e \<Rightarrow> Inl e
      | Inr st1 \<Rightarrow> retry_failed net file_hash chunk_availability rest st1)"

text \<open>
  The download from the computation of the chunk count to the end of the retry pass.
\<close>

definition fetch_chunks ::
  "(nat \<Rightarrow> nat) \<Rightarrow> network \<Rightarrow> peer list \<Rightarrow> int \<Rightarrow> string \<Rightarrow> py_error + download_state" where
  "fetch_chunks rnd net peers file_size file_hash =
     (let num_chunks = (file_size + CHUNK_SIZE - 1) div CHUNK_SIZE;
          chunk_availability = build_chunk_availability_map peers num_chunks;
          download_tasks = create_download_plan rnd chunk_availability num_chunks;
          (results, h) = run_tasks net file_hash download_tasks []
      in
        (case collect_results results
                \<lparr>output_chunks = replicate (nat num_chunks) None, successful_downloads = 0,
                 failed_chunks = [], history = h\<rparr> of
           Inl e \<Rightarrow> Inl e
         | Inr st \<Rightarrow> retry_failed net file_hash chunk_availability (failed_chunks st) st))"

text \<open>
  For stating what a retry does: the result of the \<open>j\<close>-th request when the peers of a
  list are asked for a chunk one after the other, starting from the history \<open>h\<close>.
\<close>

definition attempt ::
  "network \<Rightarrow> call list \<Rightarrow> string \<Rightarrow> int \<Rightarrow> peer_info list \<Rightarrow> nat \<Rightarrow> bytes option" where
  "attempt net h file_hash chunk_id ps j =
     fst (download_chunk net (h @ map (\<lambda>p. (ip p, port p, file_hash, chunk_id)) (take j ps))
            (ip (ps ! j)) (port (ps ! j)) file_hash chunk_id)"

text \<open>
  A network for closed examples: the first \<open>k\<close> requests made fail to connect, every later
  one is answered with the five bytes \<^verbatim>\<open>hello\<close> behind their length prefix.
\<close>

definition flaky_network :: "nat \<Rightarrow> network" where
  "flaky_network k h c =
     (if length h < k then Failed ConnectionError
      else Established ([CHR 0x00, CHR 0x00, CHR 0x00, CHR 0x05] @ ''hello'') [])"

text \<open>Two peers for closed examples, each advertising the chunks 0 and 1.\<close>

definition example_peers :: "peer list" where
  "example_peers =
     [\<lparr>ip = ''10.0.0.1'', port = 6000, chunks = [0, 1]\<rparr>,
      \<lparr>ip = ''10.0.0.2'', port = 6001, chunks = [0, 1]\<rparr>]"

text \<open>\<^verbatim>\<open>os.path.join(a, b)\<close> on a POSIX system.\<close>

definition path_join :: "string \<Rightarrow> string \<Rightarrow> string" where
  "path_join a b =
     (if b \<noteq> [] \<and> hd b = CHR ''/'' then b
      else if a = [] \<or> last a = CHR ''/'' then a @ b
      else a @ ''/'' @ b)"

text \<open>
  The end of the download: the check for missing chunks, creating the download directory,
  writing the file, reading it back through the hashing loop, and the comparison of the
  digests. Whether the operating system creates the directory and whether it opens a path
  for writing (its directory must exist, the path must not name a directory) are its
  answers; a refusal raises an \<^verbatim>\<open>OSError\<close> that nothing catches, and nothing is written.
  The file just written can be read back and removed.
\<close>

record os_answers =
  makedirs_ok :: "string \<Rightarrow> bool"
  open_wb_ok :: "string \<Rightarrow> bool"

datatype outcome =
  Incomplete "nat list" | HashMismatch string string | DownloadComplete string
  | Crashed py_error

definition finish_download ::
  "(bytes \<Rightarrow> string) \<Rightarrow> os_answers \<Rightarrow> filesystem \<Rightarrow> string \<Rightarrow> bytes option list
     \<Rightarrow> outcome \<times> filesystem" where
  "finish_download hexdigest os fs file_hash slots =
     (if None \<in> set slots
      then (Incomplete (filter (\<lambda>i. slots ! i = None) [0..<length slots]), fs)
      else
        let download_dir = ''downloads/p2p_share'' in
        if \<not> makedirs_ok os download_dir then (Crashed OSError, fs)
        else
          let output_file = path_join download_dir file_hash in
          if \<not> open_wb_ok os output_file then (Crashed OSError, fs)
          else
            let fs1 = fs(output_file \<mapsto>
                         concat (map (\<lambda>c. case c of None \<Rightarrow> [] | Some d \<Rightarrow> d) slots))
            in
              (case fs1 output_file of
                 None \<Rightarrow> (Crashed FileNotFoundError, fs1)
               | Some written \<Rightarrow>
                   let downloaded_hash = hexdigest (hash_stream written []) in
                   if downloaded_hash \<noteq> file_hash
                   then (HashMismatch file_hash downloaded_hash, fs1(output_file := None))
                   else (DownloadComplete output_file, fs1)))"

section \<open>Tracker\<close>

record file_entry =
  file_name :: string
  file_size :: int
  peers :: "peer list"

type_synonym registry = "string \<rightharpoonup> file_entry"

text \<open>The JSON body of a registration: each required field is present or not.\<close>

record register_body =
  body_file_name :: "string option"
  body_file_hash :: "string option"
  body_file_size :: "int option"
  body_chunks :: "int list option"
  body_ip :: "string option"
  body_port :: "int option"

datatype response = BadRequest string | Ok string string nat

text \<open>
  \<^verbatim>\<open>existing_peer["chunks"] = peer_info["chunks"]\<close>: the first peer with the given
  address has its chunk list replaced where it stands.
\<close>

fun update_existing :: "string \<Rightarrow> int \<Rightarrow> int list \<Rightarrow> peer list \<Rightarrow> peer list" where
  "update_existing a n cs [] = []"
| "update_existing a n cs (p # ps) =
     (if ip p = a \<and> port p = n then p\<lparr>chunks := cs\<rparr> # ps
      else p # update_existing a n cs ps)"

definition register :: "registry \<Rightarrow> register_body \<Rightarrow> response \<times> registry" where
  "register files data =
     (case body_file_name data of None \<Rightarrow> (BadRequest ''Missing field: file_name'', files)
      | Some name \<Rightarrow>
     (case body_file_hash data of None \<Rightarrow> (BadRequest ''Missing field: file_hash'', files)
      | Some file_hash \<Rightarrow>
     (case body_file_size data of None \<Rightarrow> (BadRequest ''Missing field: file_size'', files)
      | Some sz \<Rightarrow>
     (case body_chunks data of None \<Rightarrow> (BadRequest ''Missing field: chunks'', files)
      | Some cs \<Rightarrow>
     (case body_ip data of None \<Rightarrow> (BadRequest ''Missing field: ip'', files)
      | Some a \<Rightarrow>
     (case body_port data of None \<Rightarrow> (BadRequest ''Missing field: port'', files)
      | Some n \<Rightarrow>
         let entry = (case files file_hash of
                        None \<Rightarrow> \<lparr>file_name = name, file_size = sz, peers = []\<rparr>
                      | Some e \<Rightarrow> e);
             new_peer = \<lparr>ip = a, port = n, chunks = cs\<rparr>;
             existing_peer =
               find (\<lambda>p. ip p = ip new_peer \<and> port p = port new_peer) (peers entry)
         in
           (case existing_peer of
              Some p \<Rightarrow>
                let entry1 = entry\<lparr>peers := update_existing a n (chunks new_peer) (peers entry)\<rparr>
                in (Ok ''Peer updated successfully'' file_hash (length (peers entry1)),
                    files(file_hash \<mapsto> entry1))
            | None \<Rightarrow>
                let entry1 = entry\<lparr>peers := peers entry @ [new_peer]\<rparr>
                in (Ok ''Peer registered successfully'' file_hash (length (peers entry1)),
                    files(file_hash \<mapsto> entry1)))))))))"

section \<open>Chunk counts and byte ranges\<close>

lemma CHUNK_SIZE_pos: "0 < CHUNK_SIZE"
  by (simp add: CHUNK_SIZE_def)

lemma div_round_up_bounds:
  fixes s c :: int
  assumes "0 < c"
  shows "s \<le> c * ((s + c - 1) div c)" and "c * ((s + c - 1) div c) < s + c"
proof -
  let ?z = "(s + c - 1) div c"
  have eq: "c * ?z + (s + c - 1) mod c = s + c - 1" by simp
  have "0 \<le> (s + c - 1) mod c" "(s + c - 1) mod c < c" using assms by simp_all
  with eq show "s \<le> c * ?z" "c * ?z < s + c" by linarith+
qed

lemma div_round_up_ceiling:
  fixes s c :: int
  assumes "0 < c"
  shows "(s + c - 1) div c = \<lceil>real_of_int s / real_of_int c\<rceil>"
proof -
  let ?z = "(s + c - 1) div c"
  have c: "0 < real_of_int c" using assms by simp
  have "(?z - 1) * c < s"
    using div_round_up_bounds(2)[OF assms, of s] by (simp add: algebra_simps)
  then have "real_of_int ((?z - 1) * c) < real_of_int s" by (simp only: of_int_less_iff)
  then have "(real_of_int ?z - 1) * real_of_int c < real_of_int s" by simp
  then have lo: "real_of_int ?z - 1 < real_of_int s / real_of_int c"
    using c by (simp only: pos_less_divide_eq)
  have "s \<le> ?z * c" using div_round_up_bounds(1)[OF assms, of s] by (simp add: mult.commute)
  then have "real_of_int s \<le> real_of_int (?z * c)" by (simp only: of_int_le_iff)
  then have "real_of_int s \<le> real_of_int ?z * real_of_int c" by simp
  then have hi: "real_of_int s / real_of_int c \<le> real_of_int ?z"
    using c by (simp only: pos_divide_le_eq)
  from lo hi show ?thesis by (simp add: ceiling_unique)
qed

lemma chunk_range_iff:
  "b \<in> chunk_range S i \<longleftrightarrow>
     0 \<le> b - i * CHUNK_SIZE \<and> b - i * CHUNK_SIZE < CHUNK_SIZE \<and> b < S"
  by (auto simp: chunk_range_def distrib_right)

lemma chunk_range_index:
  assumes "b \<in> chunk_range S i"
  shows "b div CHUNK_SIZE = i"
proof -
  have "0 \<le> b - i * CHUNK_SIZE" "b - i * CHUNK_SIZE < CHUNK_SIZE"
    using assms by (simp_all add: chunk_range_iff)
  then show ?thesis
    by (intro int_div_pos_eq[where r = "b - i * CHUNK_SIZE"]) (simp_all add: algebra_simps)
qed

lemma chunk_ranges_cover:
  assumes "0 \<le> S"
  shows "(\<Union>i\<in>{0..<download_num_chunks S}. chunk_range S i) = {0..<S}"
proof (intro set_eqI iffI)
  fix b assume "b \<in> (\<Union>i\<in>{0..<download_num_chunks S}. chunk_range S i)"
  then obtain i where i: "0 \<le> i" "b \<in> chunk_range S i" by auto
  have "0 \<le> i * CHUNK_SIZE" using i(1) by (simp add: CHUNK_SIZE_def)
  with i(2) show "b \<in> {0..<S}" by (auto simp: chunk_range_def)
next
  fix b assume b: "b \<in> {0..<S}"
  note c = CHUNK_SIZE_pos
  let ?i = "b div CHUNK_SIZE"
  have i0: "0 \<le> ?i" using b c by (simp add: pos_imp_zdiv_nonneg_iff)
  have m: "0 \<le> b mod CHUNK_SIZE" "b mod CHUNK_SIZE < CHUNK_SIZE" using c by simp_all
  have "S \<le> CHUNK_SIZE * download_num_chunks S"
    unfolding download_num_chunks_def by (rule div_round_up_bounds(1)[OF c])
  moreover have "CHUNK_SIZE * ?i + b mod CHUNK_SIZE = b" by simp
  then have "CHUNK_SIZE * ?i \<le> b" using m by linarith
  ultimately have "CHUNK_SIZE * ?i < CHUNK_SIZE * download_num_chunks S" using b by auto
  then have iN: "?i < download_num_chunks S" using c by (simp add: mult_less_cancel_left_pos)
  have "b - ?i * CHUNK_SIZE = b mod CHUNK_SIZE" by (simp add: minus_div_mult_eq_mod)
  then have "b \<in> chunk_range S ?i" using m b by (simp add: chunk_range_iff)
  with i0 iN show "b \<in> (\<Union>i\<in>{0..<download_num_chunks S}. chunk_range S i)" by auto
qed

lemma chunk_ranges_disjoint: "i \<noteq> j \<Longrightarrow> chunk_range S i \<inter> chunk_range S j = {}"
  using chunk_range_index by blast

lemma hash_stream_feeds_all: "hash_stream rest fed = fed @ rest"
proof (induction rest fed rule: hash_stream.induct)
  case (1 rest fed)
  show ?case
  proof (cases "take (nat CHUNK_SIZE) rest = []")
    case True
    then have "rest = []" using CHUNK_SIZE_pos by (cases rest) auto
    then show ?thesis by (simp add: hash_stream.simps[of "[]" fed])
  next
    case False
    with 1 show ?thesis by (simp add: hash_stream.simps[of rest fed])
  qed
qed

text \<open>
  C3. For every file size \<open>S \<ge> 0\<close> the chunk count is \<open>\<lceil>S / CHUNK_SIZE\<rceil>\<close>; the
  byte ranges of the chunks \<open>0, \<dots>, chunkCount - 1\<close> cover \<open>[0, S)\<close> and are pairwise
  disjoint; and \<^verbatim>\<open>get_file_info\<close> on the sharing side reports, for a file on disk,
  the count that the downloading side computes from the file's size.
\<close>

theorem chunk_count_partition:
  assumes "0 \<le> S" and "fs path = Some content"
  shows "download_num_chunks S = \<lceil>real_of_int S / real_of_int CHUNK_SIZE\<rceil>
    \<and> (\<Union>i\<in>{0..<download_num_chunks S}. chunk_range S i) = {0..<S}
    \<and> disjoint_family_on (chunk_range S) {0..<download_num_chunks S}
    \<and> get_file_info hexdigest fs path =
        Inr (hexdigest content, int (length content), download_num_chunks (int (length content)))"
proof -
  have "download_num_chunks S = \<lceil>real_of_int S / real_of_int CHUNK_SIZE\<rceil>"
    unfolding download_num_chunks_def by (rule div_round_up_ceiling[OF CHUNK_SIZE_pos])
  moreover have "disjoint_family_on (chunk_range S) {0..<download_num_chunks S}"
    unfolding disjoint_family_on_def using chunk_ranges_disjoint by blast
  moreover have "get_file_info hexdigest fs path =
        Inr (hexdigest content, int (length content), download_num_chunks (int (length content)))"
    using assms(2)
    by (simp add: get_file_info_def download_num_chunks_def hash_stream_feeds_all Let_def)
  ultimately show ?thesis using chunk_ranges_cover[OF assms(1)] by blast
qed

theorem chunk_count_partition_witness:
  "(0::int) \<le> 3670016 \<and> [''f'' \<mapsto> ''abc''] ''f'' = Some ''abc''
    \<and> download_num_chunks 3670016 = 4
    \<and> (\<Union>i\<in>{0..<4}. chunk_range 3670016 i) = {0..<3670016}
    \<and> get_file_info id [''f'' \<mapsto> ''abc''] ''f'' = Inr (''abc'', 3, 1)"
proof -
  have n: "download_num_chunks 3670016 = 4" "download_num_chunks 3 = 1"
    by (simp_all add: download_num_chunks_def CHUNK_SIZE_def)
  show ?thesis
    using chunk_count_partition[of 3670016 "[''f'' \<mapsto> ''abc'']" "''f''" "''abc''" id]
    by (simp add: n)
qed

section \<open>Download planner\<close>

lemma choice_in_set: "seq \<noteq> [] \<Longrightarrow> choice r seq \<in> set seq"
  by (simp add: choice_def)

lemma peer_info_eta: "\<lparr>ip = ip x, port = port x\<rparr> = (x :: peer_info)"
  by (cases x) simp

lemma plan_loop_chunk_ids:
  "map (\<lambda>t. snd (snd t)) (fst (plan_loop rnd av cs (tasks, k))) =
     map (\<lambda>t. snd (snd t)) tasks @ filter (\<lambda>c. candidates av c \<noteq> []) cs"
  by (induction cs arbitrary: tasks k) (simp_all add: Let_def)

lemma plan_loop_peers:
  assumes "\<forall>(a, p, c) \<in> set tasks. \<lparr>ip = a, port = p\<rparr> \<in> set (candidates av c)"
  shows "\<forall>(a, p, c) \<in> set (fst (plan_loop rnd av cs (tasks, k))).
           \<lparr>ip = a, port = p\<rparr> \<in> set (candidates av c)"
  using assms
proof (induction cs arbitrary: tasks k)
  case Nil
  then show ?case by simp
next
  case (Cons c cs)
  show ?case
  proof (cases "candidates av c = []")
    case True
    then show ?thesis using Cons.IH[OF Cons.prems] by simp
  next
    case False
    let ?sel = "choice (rnd k) (candidates av c)"
    have "?sel \<in> set (candidates av c)" using False by (rule choice_in_set)
    then have "\<forall>(a, p, c') \<in> set (tasks @ [(ip ?sel, port ?sel, c)]).
                 \<lparr>ip = a, port = p\<rparr> \<in> set (candidates av c')"
      using Cons.prems by (auto simp: peer_info_eta)
    from Cons.IH[OF this] show ?thesis using False by (simp add: Let_def)
  qed
qed

lemma plan_chunk_ids:
  "map (\<lambda>t. snd (snd t)) (create_download_plan rnd av n) =
     filter (\<lambda>c. candidates av c \<noteq> []) [0..n - 1]"
  unfolding create_download_plan_def using plan_loop_chunk_ids[of rnd av _ "[]" 0] by simp

lemma count_in_distinct:
  "distinct xs \<Longrightarrow> length (filter (\<lambda>x. x = c) xs) = (if c \<in> set xs then 1 else 0)"
  by (induction xs) auto

text \<open>
  C1. Whatever the random draws, the availability map and the chunk count: the plan holds
  exactly one task for a chunk id in \<open>[0, chunkCount)\<close> with a non-empty candidate list
  and none for any other chunk id; the peer of every task is one of the candidates of the
  task's chunk; and the chunk ids of the plan are pairwise different.
\<close>

theorem create_download_plan_one_task_per_chunk:
  "(\<forall>c. length (filter (\<lambda>t. snd (snd t) = c) (create_download_plan rnd av n)) =
          (if 0 \<le> c \<and> c < n \<and> candidates av c \<noteq> [] then 1 else 0))
   \<and> (\<forall>(a, p, c) \<in> set (create_download_plan rnd av n).
          \<lparr>ip = a, port = p\<rparr> \<in> set (candidates av c))
   \<and> distinct (map (\<lambda>t. snd (snd t)) (create_download_plan rnd av n))"
proof -
  let ?plan = "create_download_plan rnd av n"
  note ids = plan_chunk_ids[of rnd av n]
  then have d: "distinct (map (\<lambda>t. snd (snd t)) ?plan)" by simp
  have "length (filter (\<lambda>t. snd (snd t) = c) ?plan) =
          (if 0 \<le> c \<and> c < n \<and> candidates av c \<noteq> [] then 1 else 0)" for c
  proof -
    have "length (filter (\<lambda>t. snd (snd t) = c) ?plan) =
          length (filter (\<lambda>x. x = c) (map (\<lambda>t. snd (snd t)) ?plan))"
      by (simp add: filter_map comp_def)
    also have "\<dots> = (if c \<in> set (map (\<lambda>t. snd (snd t)) ?plan) then 1 else 0)"
      using d by (rule count_in_distinct)
    also have "\<dots> = (if 0 \<le> c \<and> c < n \<and> candidates av c \<noteq> [] then 1 else 0)"
      unfolding ids by auto
    finally show ?thesis .
  qed
  moreover have "\<forall>(a, p, c) \<in> set ?plan. \<lparr>ip = a, port = p\<rparr> \<in> set (candidates av c)"
    unfolding create_download_plan_def by (rule plan_loop_peers) simp
  ultimately show ?thesis using d by blast
qed

theorem create_download_plan_one_task_per_chunk_witness:
  "(''10.0.0.2'', 6001, 1) \<in> set (create_download_plan (\<lambda>k. k)
      [0 \<mapsto> [\<lparr>ip = ''10.0.0.1'', port = 6000\<rparr>],
       1 \<mapsto> [\<lparr>ip = ''10.0.0.1'', port = 6000\<rparr>, \<lparr>ip = ''10.0.0.2'', port = 6001\<rparr>],
       3 \<mapsto> [\<lparr>ip = ''10.0.0.2'', port = 6001\<rparr>]] 4)
   \<and> \<lparr>ip = ''10.0.0.2'', port = 6001\<rparr> \<in> set (candidates
      [0 \<mapsto> [\<lparr>ip = ''10.0.0.1'', port = 6000\<rparr>],
       1 \<mapsto> [\<lparr>ip = ''10.0.0.1'', port = 6000\<rparr>, \<lparr>ip = ''10.0.0.2'', port = 6001\<rparr>],
       3 \<mapsto> [\<lparr>ip = ''10.0.0.2'', port = 6001\<rparr>]] 1)
   \<and> length (filter (\<lambda>t. snd (snd t) = 2) (create_download_plan (\<lambda>k. k)
      [0 \<mapsto> [\<lparr>ip = ''10.0.0.1'', port = 6000\<rparr>],
       1 \<mapsto> [\<lparr>ip = ''10.0.0.1'', port = 6000\<rparr>, \<lparr>ip = ''10.0.0.2'', port = 6001\<rparr>],
       3 \<mapsto> [\<lparr>ip = ''10.0.0.2'', port = 6001\<rparr>]] 4)) = 0"
proof -
  let ?av = "[0 \<mapsto> [\<lparr>ip = ''10.0.0.1'', port = 6000\<rparr>],
       1 \<mapsto> [\<lparr>ip = ''10.0.0.1'', port = 6000\<rparr>, \<lparr>ip = ''10.0.0.2'', port = 6001\<rparr>],
       3 \<mapsto> [\<lparr>ip = ''10.0.0.2'', port = 6001\<rparr>]] :: availability"
  have plan: "create_download_plan (\<lambda>k. k) ?av 4 =
      [(''10.0.0.1'', 6000, 0), (''10.0.0.2'', 6001, 1), (''10.0.0.2'', 6001, 3)]"
    by (simp add: create_download_plan_def upto.simps candidates_def choice_def Let_def)
  have mem: "(''10.0.0.2'', 6001, 1) \<in> set (create_download_plan (\<lambda>k. k) ?av 4)"
    unfolding plan by simp
  have c2: "candidates ?av 2 = []" by (simp add: candidates_def)
  show ?thesis
    using create_download_plan_one_task_per_chunk[of "\<lambda>k. k" ?av 4] mem c2 by auto
qed

section \<open>Availability index\<close>

lemma candidates_upd:
  "candidates (av(k \<mapsto> xs)) c = (if c = k then xs else candidates av c)"
  by (simp add: candidates_def)

lemma add_peer_chunks_candidates:
  "candidates (add_peer_chunks info n cs av) c =
     candidates av c @ replicate (if c < n then count_list cs c else 0) info"
proof (induction cs arbitrary: av)
  case Nil
  then show ?case by simp
next
  case (Cons k cs)
  show ?case
    by (simp add: Cons.IH candidates_upd replicate_append_same)
qed

lemma add_peer_chunks_dom:
  "dom (add_peer_chunks info n cs av) = dom av \<union> {c \<in> set cs. c < n}"
  by (induction cs arbitrary: av) auto

lemma add_peers_candidates:
  "candidates (add_peers ps n av) c =
     candidates av c @
     concat (map (\<lambda>p. replicate (if c < n then count_list (chunks p) c else 0)
                        \<lparr>ip = ip p, port = port p\<rparr>) ps)"
  by (induction ps arbitrary: av) (simp_all add: add_peer_chunks_candidates)

lemma add_peers_dom:
  "dom (add_peers ps n av) = dom av \<union> {c. c < n \<and> (\<exists>p \<in> set ps. c \<in> set (chunks p))}"
  by (induction ps arbitrary: av) (auto simp: add_peer_chunks_dom)

text \<open>
  C5, as stated, fails: the only test is \<^verbatim>\<open>chunk_id < num_chunks\<close>, so an advertised
  negative chunk id becomes a key of the map. Here a peer advertises \<open>-1\<close>, \<open>0\<close> and \<open>5\<close>
  for a file of one chunk.
\<close>

theorem build_chunk_availability_map_negative_key:
  "build_chunk_availability_map [\<lparr>ip = ''10.0.0.1'', port = 6000, chunks = [- 1, 0, 5]\<rparr>] 1 (- 1)
     = Some [\<lparr>ip = ''10.0.0.1'', port = 6000\<rparr>]
   \<and> (- 1 :: int) \<notin> {0..<1}"
  by (simp add: build_chunk_availability_map_def candidates_def)

text \<open>
  C5, amended. The candidate list of a chunk id below the chunk count holds, peer after
  peer in the order of the peer list, each peer once for each time it advertises that id;
  a chunk id at or above the chunk count has no candidates; and the keys of the map are
  exactly the advertised ids below the chunk count, so no key is at or above it.
\<close>

theorem build_chunk_availability_map_upper_bound_only:
  "candidates (build_chunk_availability_map ps n) c =
     (if c < n
      then concat (map (\<lambda>p. replicate (count_list (chunks p) c) \<lparr>ip = ip p, port = port p\<rparr>) ps)
      else [])
   \<and> dom (build_chunk_availability_map ps n) =
       {c. c < n \<and> (\<exists>p \<in> set ps. c \<in> set (chunks p))}"
  unfolding build_chunk_availability_map_def add_peers_candidates add_peers_dom
  by (simp add: candidates_def)

theorem build_chunk_availability_map_upper_bound_only_witness:
  "candidates (build_chunk_availability_map
      [\<lparr>ip = ''10.0.0.1'', port = 6000, chunks = [0, 1]\<rparr>,
       \<lparr>ip = ''10.0.0.2'', port = 6001, chunks = [1, 2, 3, 7]\<rparr>] 4) 1
    = [\<lparr>ip = ''10.0.0.1'', port = 6000\<rparr>, \<lparr>ip = ''10.0.0.2'', port = 6001\<rparr>]
  \<and> 7 \<notin> dom (build_chunk_availability_map
      [\<lparr>ip = ''10.0.0.1'', port = 6000, chunks = [0, 1]\<rparr>,
       \<lparr>ip = ''10.0.0.2'', port = 6001, chunks = [1, 2, 3, 7]\<rparr>] 4)"
  using build_chunk_availability_map_upper_bound_only[of
      "[\<lparr>ip = ''10.0.0.1'', port = 6000, chunks = [0, 1]\<rparr>,
       \<lparr>ip = ''10.0.0.2'', port = 6001, chunks = [1, 2, 3, 7]\<rparr>]" 4 1]
  by simp

section \<open>Chunk server: the framed response\<close>

lemma bytes4_digits:
  fixes n :: nat
  assumes "n < 2 ^ 32"
  shows "(((n div 2 ^ 24) mod 256 * 256 + (n div 2 ^ 16) mod 256) * 256
          + (n div 2 ^ 8) mod 256) * 256 + n mod 256 = n"
proof -
  define q1 where "q1 = n div 256"
  define q2 where "q2 = q1 div 256"
  define q3 where "q3 = q2 div 256"
  have e1: "n div 2 ^ 8 = q1" by (simp add: q1_def)
  have e2: "n div 2 ^ 16 = q2"
    using div_mult2_eq[of n 256 256] by (simp add: q1_def q2_def)
  have e3: "n div 2 ^ 24 = q3"
    using div_mult2_eq[of n 65536 256] e2 by (simp add: q3_def)
  have "q3 < 256" using assms unfolding e3[symmetric] by (simp add: less_mult_imp_div_less)
  then have m3: "q3 mod 256 = q3" by simp
  have s1: "q1 * 256 + n mod 256 = n" by (simp add: q1_def)
  have s2: "q2 * 256 + q1 mod 256 = q1" by (simp add: q2_def)
  have s3: "q3 * 256 + q2 mod 256 = q2" by (simp add: q3_def)
  show ?thesis unfolding e1 e2 e3 m3 by (simp only: s3 s2 s1)
qed

lemma from_to_bytes4:
  assumes "n < 2 ^ 32"
  shows "\<exists>bs. to_bytes4_big n = Inr bs \<and> length bs = 4 \<and> from_bytes_big bs = n"
  using assms bytes4_digits[OF assms]
  by (simp add: to_bytes4_big_def from_bytes_big_def)

lemma take_drop_nth:
  "take k (drop lo xs) = map ((!) xs) [lo ..< min (lo + k) (length xs)]"
proof -
  have "take k (drop lo xs) = take k (drop lo (map ((!) xs) [0..<length xs]))"
    by (simp add: map_nth)
  also have "\<dots> = map ((!) xs) (take k [lo..<length xs])"
    by (simp add: drop_map take_map)
  also have "take k [lo..<length xs] = [lo ..< min (lo + k) (length xs)]"
    by (cases "lo + k \<le> length xs") (simp_all add: min_def)
  finally show ?thesis .
qed


lemma chunk_bounds:
  fixes S cid :: int
  assumes "0 \<le> cid" and "cid < (S + CHUNK_SIZE - 1) div CHUNK_SIZE"
  shows "cid * CHUNK_SIZE < S"
    and "cid + 1 < (S + CHUNK_SIZE - 1) div CHUNK_SIZE \<Longrightarrow> (cid + 1) * CHUNK_SIZE < S"
proof -
  let ?n = "(S + CHUNK_SIZE - 1) div CHUNK_SIZE"
  note c = CHUNK_SIZE_pos
  have up: "CHUNK_SIZE * ?n < S + CHUNK_SIZE" by (rule div_round_up_bounds(2)[OF c])
  have "cid + 1 \<le> ?n" using assms(2) by simp
  then have "CHUNK_SIZE * (cid + 1) \<le> CHUNK_SIZE * ?n" using c by (simp add: mult_left_mono)
  with up show "cid * CHUNK_SIZE < S" by (simp add: algebra_simps)
  assume "cid + 1 < ?n"
  then have "cid + 2 \<le> ?n" by simp
  then have "CHUNK_SIZE * (cid + 2) \<le> CHUNK_SIZE * ?n" using c by (simp add: mult_left_mono)
  with up show "(cid + 1) * CHUNK_SIZE < S" by (simp add: algebra_simps)
qed

lemma handle_request_valid:
  assumes "hosted_files file_hash = Some file_path" and "fs file_path = Some content"
    and "to_int chunk_str = Some chunk_id" and "0 \<le> chunk_id"
    and "chunk_id < (int (length content) + CHUNK_SIZE - 1) div CHUNK_SIZE"
  shows "\<exists>prefix. to_bytes4_big (length (take (nat CHUNK_SIZE) (drop (nat (chunk_id * CHUNK_SIZE)) content))) = Inr prefix
     \<and> handle_request to_int fs hosted_files (Inr [''GET_CHUNK'', file_hash, chunk_str]) =
     ([Seek (chunk_id * CHUNK_SIZE), Read (nat CHUNK_SIZE), Sendall prefix,
       Sendall (take (nat CHUNK_SIZE) (drop (nat (chunk_id * CHUNK_SIZE)) content))], None)"
proof -
  let ?data = "take (nat CHUNK_SIZE) (drop (nat (chunk_id * CHUNK_SIZE)) content)"
  have "length ?data \<le> nat CHUNK_SIZE" by simp
  also have "\<dots> < 2 ^ 32" by (simp add: CHUNK_SIZE_def)
  finally obtain prefix where p: "to_bytes4_big (length ?data) = Inr prefix"
    using from_to_bytes4 by blast
  have off: "\<not> chunk_id * CHUNK_SIZE < 0"
    using assms(4) CHUNK_SIZE_pos by (simp add: mult_less_0_iff)
  show ?thesis
    using assms p off by (simp add: handle_request_def Let_def)
qed

text \<open>
  C4. A \<^verbatim>\<open>GET_CHUNK\<close> request for a hosted file that exists on disk, with a chunk
  id in \<open>[0, chunkCount)\<close> for the file's size, is answered by seeking to
  \<open>chunkId * CHUNK_SIZE\<close>, reading, and sending a 4-byte prefix followed by the data; the
  prefix is the big-endian length of the data, the data are the file's bytes at the
  positions \<open>[chunkId * CHUNK_SIZE, min ((chunkId + 1) * CHUNK_SIZE, size))\<close>, there is at
  least one and at most \<open>CHUNK_SIZE\<close> of them, and exactly \<open>CHUNK_SIZE\<close> for every
  chunk but the last.
\<close>

theorem valid_request_framed_chunk:
  assumes "hosted_files file_hash = Some file_path" and "fs file_path = Some content"
    and "to_int chunk_str = Some chunk_id" and "0 \<le> chunk_id"
    and "chunk_id < download_num_chunks (int (length content))"
  shows "\<exists>prefix data.
      handle_peer_connection to_int fs hosted_files (Inr [''GET_CHUNK'', file_hash, chunk_str]) =
        [Seek (chunk_id * CHUNK_SIZE), Read (nat CHUNK_SIZE), Sendall prefix, Sendall data, Close]
    \<and> length prefix = 4 \<and> from_bytes_big prefix = length data
    \<and> data = map ((!) content)
        [nat (chunk_id * CHUNK_SIZE) ..<
         nat (min ((chunk_id + 1) * CHUNK_SIZE) (int (length content)))]
    \<and> 0 < length data \<and> int (length data) \<le> CHUNK_SIZE
    \<and> (chunk_id + 1 < download_num_chunks (int (length content))
        \<longrightarrow> int (length data) = CHUNK_SIZE)"
proof -
  let ?S = "int (length content)"
  let ?lo = "chunk_id * CHUNK_SIZE"
  let ?hi = "min ((chunk_id + 1) * CHUNK_SIZE) ?S"
  let ?data = "take (nat CHUNK_SIZE) (drop (nat ?lo) content)"
  note c = CHUNK_SIZE_pos
  have n: "chunk_id < (?S + CHUNK_SIZE - 1) div CHUNK_SIZE"
    using assms(5) by (simp add: download_num_chunks_def)
  from handle_request_valid[of hosted_files file_hash file_path fs content to_int chunk_str chunk_id]
    assms(1-4) n
  obtain prefix where
    p: "to_bytes4_big (length ?data) = Inr prefix" and
    h: "handle_request to_int fs hosted_files (Inr [''GET_CHUNK'', file_hash, chunk_str]) =
         ([Seek ?lo, Read (nat CHUNK_SIZE), Sendall prefix, Sendall ?data], None)"
    by blast
  have "length ?data \<le> nat CHUNK_SIZE" by simp
  also have "\<dots> < 2 ^ 32" by (simp add: CHUNK_SIZE_def)
  finally have "\<exists>bs. to_bytes4_big (length ?data) = Inr bs \<and> length bs = 4
      \<and> from_bytes_big bs = length ?data" by (rule from_to_bytes4)
  with p have pre: "length prefix = 4" "from_bytes_big prefix = length ?data" by auto
  have lo0: "0 \<le> ?lo" using assms(4) c by simp
  have loS: "?lo < ?S" using chunk_bounds(1)[OF assms(4) n] .
  have hi: "nat ?lo + nat CHUNK_SIZE = nat ((chunk_id + 1) * CHUNK_SIZE)"
    using lo0 c by (simp add: distrib_right nat_add_distrib)
  have "min (nat ?lo + nat CHUNK_SIZE) (length content) = nat ?hi"
    unfolding hi using lo0 c by (simp add: min_def nat_le_iff le_nat_iff)
  then have d: "?data = map ((!) content) [nat ?lo ..< nat ?hi]"
    using take_drop_nth[of "nat CHUNK_SIZE" "nat ?lo" content] by simp
  have len: "int (length ?data) = ?hi - ?lo"
    unfolding d using lo0 loS c by (simp add: min_def distrib_right)
  have hi_eq: "(chunk_id + 1) * CHUNK_SIZE = ?lo + CHUNK_SIZE" by (simp add: distrib_right)
  have "0 < ?hi - ?lo" unfolding hi_eq using loS c by linarith
  then have "0 < int (length ?data)" using len by (simp only:)
  then have pos: "0 < length ?data" by (simp only: of_nat_0_less_iff)
  have "?hi - ?lo \<le> CHUNK_SIZE" unfolding hi_eq by linarith
  then have le: "int (length ?data) \<le> CHUNK_SIZE" using len by (simp only:)
  have full: "int (length ?data) = CHUNK_SIZE"
    if "chunk_id + 1 < download_num_chunks ?S"
  proof -
    have "(chunk_id + 1) * CHUNK_SIZE < ?S"
      using chunk_bounds(2)[OF assms(4) n] that by (simp add: download_num_chunks_def)
    then have "?hi - ?lo = CHUNK_SIZE" unfolding hi_eq by linarith
    then show ?thesis using len by (simp only:)
  qed
  have ev: "handle_peer_connection to_int fs hosted_files (Inr [''GET_CHUNK'', file_hash, chunk_str]) =
        [Seek ?lo, Read (nat CHUNK_SIZE), Sendall prefix, Sendall ?data, Close]"
    by (simp add: handle_peer_connection_def h)
  show ?thesis
    using ev pre d pos le full by blast
qed


theorem valid_request_framed_chunk_witness:
  "dec_int ''0'' = Some 0 \<and> (0::int) < download_num_chunks (int (length ''hello''))
   \<and> (\<exists>prefix.
        handle_peer_connection dec_int [''/srv/f'' \<mapsto> ''hello''] [''abc'' \<mapsto> ''/srv/f'']
          (Inr [''GET_CHUNK'', ''abc'', ''0'']) =
          [Seek 0, Read 1048576, Sendall prefix, Sendall ''hello'', Close]
        \<and> length prefix = 4 \<and> from_bytes_big prefix = 5)"
proof -
  have h1: "[''abc'' \<mapsto> ''/srv/f''] ''abc'' = Some ''/srv/f''" by simp
  have h2: "[''/srv/f'' \<mapsto> ''hello''] ''/srv/f'' = Some ''hello''" by simp
  have h3: "dec_int ''0'' = Some 0" by simp
  have h4: "(0::int) \<le> 0" by simp
  have h5: "(0::int) < download_num_chunks (int (length ''hello''))"
    by (simp add: download_num_chunks_def CHUNK_SIZE_def)
  have r: "map ((!) ''hello'')
        [nat (0 * CHUNK_SIZE) ..< nat (min ((0 + 1) * CHUNK_SIZE) (int (length ''hello'')))]
      = ''hello''"
    by (simp add: CHUNK_SIZE_def upt_rec)
  from valid_request_framed_chunk[of "[''abc'' \<mapsto> ''/srv/f'']" "''abc''" "''/srv/f''"
      "[''/srv/f'' \<mapsto> ''hello'']" "''hello''" dec_int "''0''" 0, OF h1 h2 h3 h4 h5]
  obtain prefix data where
    e: "handle_peer_connection dec_int [''/srv/f'' \<mapsto> ''hello''] [''abc'' \<mapsto> ''/srv/f'']
          (Inr [''GET_CHUNK'', ''abc'', ''0'']) =
          [Seek (0 * CHUNK_SIZE), Read (nat CHUNK_SIZE), Sendall prefix, Sendall data, Close]"
    and l: "length prefix = 4" "from_bytes_big prefix = length data"
    and d: "data = map ((!) ''hello'')
        [nat (0 * CHUNK_SIZE) ..< nat (min ((0 + 1) * CHUNK_SIZE) (int (length ''hello'')))]"
    by blast
  from d r have "data = ''hello''" by (simp only:)
  with e l have "handle_peer_connection dec_int [''/srv/f'' \<mapsto> ''hello''] [''abc'' \<mapsto> ''/srv/f'']
          (Inr [''GET_CHUNK'', ''abc'', ''0'']) =
          [Seek 0, Read 1048576, Sendall prefix, Sendall ''hello'', Close]
        \<and> length prefix = 4 \<and> from_bytes_big prefix = 5"
    by (simp add: CHUNK_SIZE_def)
  with h3 h5 show ?thesis by blast
qed

section \<open>Chunk server: rejected requests\<close>

lemma handle_request_malformed:
  "length req \<noteq> 3 \<or> hd req \<noteq> ''GET_CHUNK'' \<Longrightarrow>
     handle_request to_int fs hosted_files (Inr req) = ([], None)"
  by (auto simp: handle_request_def split: list.splits)

text \<open>
  The rejections that are answered: a request that could not be received or decoded, a
  \<^verbatim>\<open>GET_CHUNK\<close> request for a content hash that is not hosted, and one for a chunk id at or
  above the chunk count of the file's size. Each gets an error text and the close, and
  nothing else.
\<close>

lemma answered_rejections:
  "handle_peer_connection to_int fs hosted_files (Inl e) = [Sendall ''ERROR: Server error'', Close]"
  "hosted_files file_hash = None \<Longrightarrow>
     handle_peer_connection to_int fs hosted_files (Inr [''GET_CHUNK'', file_hash, chunk_str]) =
       [Sendall (if to_int chunk_str = None then ''ERROR: Server error''
                 else ''ERROR: File not found''), Close]"
  "hosted_files file_hash = Some file_path \<Longrightarrow> fs file_path = Some content \<Longrightarrow>
   to_int chunk_str = Some chunk_id \<Longrightarrow>
   download_num_chunks (int (length content)) \<le> chunk_id \<Longrightarrow>
     handle_peer_connection to_int fs hosted_files (Inr [''GET_CHUNK'', file_hash, chunk_str]) =
       [Sendall ''ERROR: Chunk out of range'', Close]"
  by (auto simp: handle_peer_connection_def handle_request_def download_num_chunks_def)

text \<open>
  C2. A request with a command other than \<^verbatim>\<open>GET_CHUNK\<close> is to be answered with an error
  text, as the other rejections are. The handler does not: for the request
  \<^verbatim>\<open>PUT_CHUNK abc 0\<close> to a server hosting \<^verbatim>\<open>abc\<close> it closes the connection and sends
  nothing, while on the same server an unknown hash and a chunk id out of range are each
  answered with their error text.
\<close>

theorem bad_command_gets_no_reply:
  "handle_peer_connection dec_int [''/srv/f'' \<mapsto> ''hello''] [''abc'' \<mapsto> ''/srv/f'']
     (Inr [''PUT_CHUNK'', ''abc'', ''0'']) = [Close]
   \<and> sent (handle_peer_connection dec_int [''/srv/f'' \<mapsto> ''hello''] [''abc'' \<mapsto> ''/srv/f'']
     (Inr [''PUT_CHUNK'', ''abc'', ''0''])) = []
   \<and> sent (handle_peer_connection dec_int [''/srv/f'' \<mapsto> ''hello''] [''abc'' \<mapsto> ''/srv/f'']
     (Inr [''GET_CHUNK'', ''xyz'', ''0''])) = ''ERROR: File not found''
   \<and> sent (handle_peer_connection dec_int [''/srv/f'' \<mapsto> ''hello''] [''abc'' \<mapsto> ''/srv/f'']
     (Inr [''GET_CHUNK'', ''abc'', ''1''])) = ''ERROR: Chunk out of range''"
  by (simp add: handle_peer_connection_def handle_request_def CHUNK_SIZE_def)

lemma handle_request_read:
  assumes "list_ex is_read (fst (handle_request to_int fs hosted_files request))"
  shows "\<exists>file_hash chunk_str chunk_id file_path content.
      request = Inr [''GET_CHUNK'', file_hash, chunk_str] \<and> to_int chunk_str = Some chunk_id
      \<and> hosted_files file_hash = Some file_path \<and> fs file_path = Some content
      \<and> 0 \<le> chunk_id \<and> chunk_id < download_num_chunks (int (length content))"
proof (cases request)
  case (Inl e)
  with assms show ?thesis by (simp add: handle_request_def)
next
  case (Inr req)
  show ?thesis
  proof (cases "length req \<noteq> 3 \<or> hd req \<noteq> ''GET_CHUNK''")
    case True
    with assms Inr show ?thesis by (simp add: handle_request_malformed)
  next
    case False
    then have "length req = Suc (Suc (Suc 0))" and hd: "hd req = ''GET_CHUNK''"
      by (simp_all add: numeral_3_eq_3)
    then obtain command file_hash chunk_str where "req = [command, file_hash, chunk_str]"
      by (auto simp: length_Suc_conv)
    with hd have req: "req = [''GET_CHUNK'', file_hash, chunk_str]" by simp
    show ?thesis
    proof (cases "to_int chunk_str")
      case None
      with assms Inr req show ?thesis by (simp add: handle_request_def)
    next
      case (Some chunk_id)
      note cid = this
      show ?thesis
      proof (cases "hosted_files file_hash")
        case None
        with assms Inr req cid show ?thesis by (simp add: handle_request_def)
      next
        case (Some file_path)
        note path = this
        show ?thesis
        proof (cases "fs file_path")
          case None
          with assms Inr req cid path show ?thesis by (simp add: handle_request_def)
        next
          case (Some content)
          have pos: "0 \<le> chunk_id" if "\<not> chunk_id * CHUNK_SIZE < 0"
            using that CHUNK_SIZE_pos by (simp add: mult_less_0_iff not_less)
          from assms Inr req cid path Some pos show ?thesis
            by (auto simp: handle_request_def Let_def download_num_chunks_def
                split: if_splits sum.splits)
        qed
      qed
    qed
  qed
qed


lemma handle_request_out_of_bounds:
  assumes "hosted_files file_hash = Some file_path" and "fs file_path = Some content"
    and "to_int chunk_str = Some chunk_id"
    and "\<not> (0 \<le> chunk_id \<and> chunk_id < download_num_chunks (int (length content)))"
  shows "handle_request to_int fs hosted_files (Inr [''GET_CHUNK'', file_hash, chunk_str]) =
     (if chunk_id < 0 then ([Seek (chunk_id * CHUNK_SIZE)], Some OSError)
      else ([Sendall ''ERROR: Chunk out of range''], None))"
proof (cases "chunk_id < 0")
  case True
  have "0 \<le> (int (length content) + CHUNK_SIZE - 1) div CHUNK_SIZE"
    using CHUNK_SIZE_pos by (simp add: pos_imp_zdiv_nonneg_iff)
  with True have g: "\<not> (int (length content) + CHUNK_SIZE - 1) div CHUNK_SIZE \<le> chunk_id"
    by linarith
  have off: "chunk_id * CHUNK_SIZE < 0"
    using True CHUNK_SIZE_pos by (simp add: mult_less_0_iff)
  show ?thesis using assms(1-3) True g off by (simp add: handle_request_def Let_def)
next
  case False
  with assms(4) have "(int (length content) + CHUNK_SIZE - 1) div CHUNK_SIZE \<le> chunk_id"
    by (simp add: download_num_chunks_def)
  then show ?thesis using assms(1-3) False by (simp add: handle_request_def Let_def)
qed

text \<open>
  C8. Every task of a plan has a chunk id in \<open>[0, chunkCount)\<close>. A handler that reads from
  the file was given a \<^verbatim>\<open>GET_CHUNK\<close> request for a hosted file with a chunk id in
  \<open>[0, chunkCount)\<close> for the file's size. A request for a hosted file whose chunk id is
  outside that range is answered with an error text and without a read: a chunk id at or
  above the count by \<^verbatim>\<open>ERROR: Chunk out of range\<close>, a negative one, which passes that test
  and fails in the seek, by \<^verbatim>\<open>ERROR: Server error\<close>.
\<close>

theorem chunk_id_bounds_enforced:
  "(\<forall>(a, p, c) \<in> set (create_download_plan rnd av n). 0 \<le> c \<and> c < n)
   \<and> (list_ex is_read (handle_peer_connection to_int fs hosted_files request) \<longrightarrow>
        (\<exists>file_hash chunk_str chunk_id file_path content.
           request = Inr [''GET_CHUNK'', file_hash, chunk_str]
           \<and> to_int chunk_str = Some chunk_id
           \<and> hosted_files file_hash = Some file_path \<and> fs file_path = Some content
           \<and> 0 \<le> chunk_id \<and> chunk_id < download_num_chunks (int (length content))))
   \<and> (hosted_files h = Some path \<and> fs path = Some bs \<and> to_int str = Some cid
        \<and> \<not> (0 \<le> cid \<and> cid < download_num_chunks (int (length bs))) \<longrightarrow>
        handle_peer_connection to_int fs hosted_files (Inr [''GET_CHUNK'', h, str]) =
          (if cid < 0
           then [Seek (cid * CHUNK_SIZE), Sendall ''ERROR: Server error'', Close]
           else [Sendall ''ERROR: Chunk out of range'', Close]))"
proof (intro conjI impI)
  have "snd (snd t) \<in> set [0..n - 1]" if "t \<in> set (create_download_plan rnd av n)" for t
  proof -
    from that have "snd (snd t) \<in> set (map (\<lambda>t. snd (snd t)) (create_download_plan rnd av n))"
      by simp
    then show ?thesis unfolding plan_chunk_ids by simp
  qed
  then show "\<forall>(a, p, c) \<in> set (create_download_plan rnd av n). 0 \<le> c \<and> c < n"
    by fastforce
next
  assume "list_ex is_read (handle_peer_connection to_int fs hosted_files request)"
  then have "list_ex is_read (fst (handle_request to_int fs hosted_files request))"
    by (cases "handle_request to_int fs hosted_files request")
       (auto simp: handle_peer_connection_def split: option.splits)
  then show "\<exists>file_hash chunk_str chunk_id file_path content.
           request = Inr [''GET_CHUNK'', file_hash, chunk_str]
           \<and> to_int chunk_str = Some chunk_id
           \<and> hosted_files file_hash = Some file_path \<and> fs file_path = Some content
           \<and> 0 \<le> chunk_id \<and> chunk_id < download_num_chunks (int (length content))"
    by (rule handle_request_read)
next
  assume a: "hosted_files h = Some path \<and> fs path = Some bs \<and> to_int str = Some cid
        \<and> \<not> (0 \<le> cid \<and> cid < download_num_chunks (int (length bs)))"
  then have "handle_request to_int fs hosted_files (Inr [''GET_CHUNK'', h, str]) =
     (if cid < 0 then ([Seek (cid * CHUNK_SIZE)], Some OSError)
      else ([Sendall ''ERROR: Chunk out of range''], None))"
    using handle_request_out_of_bounds[of hosted_files h path fs bs to_int str cid] by blast
  then show "handle_peer_connection to_int fs hosted_files (Inr [''GET_CHUNK'', h, str]) =
          (if cid < 0
           then [Seek (cid * CHUNK_SIZE), Sendall ''ERROR: Server error'', Close]
           else [Sendall ''ERROR: Chunk out of range'', Close])"
    by (simp add: handle_peer_connection_def)
qed

theorem chunk_id_bounds_enforced_witness:
  "(''10.0.0.1'', 6000, 0) \<in> set (create_download_plan (\<lambda>k. k)
       [0 \<mapsto> [\<lparr>ip = ''10.0.0.1'', port = 6000\<rparr>]] 1)
   \<and> (0::int) \<le> 0 \<and> (0::int) < 1
   \<and> list_ex is_read
        (handle_peer_connection dec_int [''/srv/f'' \<mapsto> ''hello''] [''abc'' \<mapsto> ''/srv/f'']
          (Inr [''GET_CHUNK'', ''abc'', ''0'']))
   \<and> (\<exists>chunk_id. dec_int ''0'' = Some chunk_id \<and> 0 \<le> chunk_id
        \<and> chunk_id < download_num_chunks (int (length ''hello'')))
   \<and> dec_int ''-1'' = Some (- 1)
   \<and> \<not> (0 \<le> (- 1 :: int) \<and> - 1 < download_num_chunks (int (length ''hello'')))
   \<and> handle_peer_connection dec_int [''/srv/f'' \<mapsto> ''hello''] [''abc'' \<mapsto> ''/srv/f'']
        (Inr [''GET_CHUNK'', ''abc'', ''-1'']) =
        [Seek (- 1048576), Sendall ''ERROR: Server error'', Close]"
proof -
  let ?av = "[0 \<mapsto> [\<lparr>ip = ''10.0.0.1'', port = 6000\<rparr>]] :: availability"
  have plan: "create_download_plan (\<lambda>k. k) ?av 1 = [(''10.0.0.1'', 6000, 0)]"
    by (simp add: create_download_plan_def upto.simps candidates_def choice_def Let_def)
  have d: "dec_int ''-1'' = Some (- 1)" by simp
  have r: "list_ex is_read
        (handle_peer_connection dec_int [''/srv/f'' \<mapsto> ''hello''] [''abc'' \<mapsto> ''/srv/f'']
          (Inr [''GET_CHUNK'', ''abc'', ''0'']))"
    by (simp add: handle_peer_connection_def handle_request_def to_bytes4_big_def
        CHUNK_SIZE_def Let_def)
  have "\<exists>chunk_id. dec_int ''0'' = Some chunk_id \<and> 0 \<le> chunk_id
        \<and> chunk_id < download_num_chunks (int (length ''hello''))"
    using chunk_id_bounds_enforced[of "\<lambda>k. k" ?av 1 dec_int "[''/srv/f'' \<mapsto> ''hello'']"
      "[''abc'' \<mapsto> ''/srv/f'']" "Inr [''GET_CHUNK'', ''abc'', ''0'']" "''abc''" "''/srv/f''"
      "''hello''" "''0''" 0] r
    by auto
  moreover have "handle_peer_connection dec_int [''/srv/f'' \<mapsto> ''hello''] [''abc'' \<mapsto> ''/srv/f'']
        (Inr [''GET_CHUNK'', ''abc'', ''-1'']) =
        [Seek (- 1048576), Sendall ''ERROR: Server error'', Close]"
    using chunk_id_bounds_enforced[of "\<lambda>k. k" ?av 1 dec_int "[''/srv/f'' \<mapsto> ''hello'']"
      "[''abc'' \<mapsto> ''/srv/f'']" "Inr [''GET_CHUNK'', ''abc'', ''-1'']" "''abc''" "''/srv/f''"
      "''hello''" "''-1''" "- 1"] d
    by (simp add: CHUNK_SIZE_def)
  ultimately show ?thesis using plan d r by simp
qed

section \<open>Chunk downloader: error replies\<close>

lemma sock_recv_prefix:
  assumes "sock_recv n stream segs = (Inr c, s', g')"
  shows "\<exists>m \<le> n. c = take m stream \<and> s' = drop m stream"
proof (cases segs)
  case Nil
  with assms show ?thesis by auto
next
  case (Cons g gs)
  show ?thesis
  proof (cases g)
    case (Deliver k)
    with Cons assms have "c = take (min n (max 1 k)) stream \<and> s' = drop (min n (max 1 k)) stream"
      by (auto simp: Let_def)
    then show ?thesis by (intro exI[of _ "min n (max 1 k)"]) simp
  qed (use Cons assms in auto)
qed

lemma recv_loop_length:
  "recv_loop remaining data stream segs = Inr d \<Longrightarrow> length d \<le> length data + length stream"
proof (induction remaining data stream segs rule: recv_loop.induct)
  case (1 remaining data stream segs)
  show ?case
  proof (cases "remaining > 0")
    case False
    with "1.prems" show ?thesis by (simp add: recv_loop.simps[of remaining data stream segs])
  next
    case True
    obtain r s' g' where sr: "sock_recv (min remaining 65536) stream segs = (r, s', g')"
      by (cases "sock_recv (min remaining 65536) stream segs") auto
    show ?thesis
    proof (cases r)
      case (Inl e)
      with "1.prems" True sr show ?thesis
        by (simp add: recv_loop.simps[of remaining data stream segs])
    next
      case (Inr chunk)
      from sock_recv_prefix[OF sr[unfolded Inr]] obtain m where
        m: "chunk = take m stream" "s' = drop m stream" by blast
      show ?thesis
      proof (cases "chunk = []")
        case True
        with "1.prems" \<open>remaining > 0\<close> sr Inr show ?thesis
          by (simp add: recv_loop.simps[of remaining data stream segs])
      next
        case False
        with "1.prems" \<open>remaining > 0\<close> sr Inr
        have "recv_loop (remaining - length chunk) (data @ chunk) s' g' = Inr d"
          by (simp add: recv_loop.simps[of remaining data stream segs])
        from "1.IH"[OF \<open>remaining > 0\<close> sr[symmetric] Inr refl False this]
        have "length d \<le> length (data @ chunk) + length s'" .
        also have "\<dots> = length data + length stream"
          using m by (simp add: min_def)
        finally show ?thesis .
      qed
    qed
  qed
qed

text \<open>
  C10, as stated, fails in its constant: the four bytes \<^verbatim>\<open>ERRO\<close> read as a big-endian
  length are 1163022927 (hexadecimal 4552524F), not 1163088463 (hexadecimal 4553524F).
\<close>

theorem error_prefix_length: "from_bytes_big ''ERRO'' = 1163022927 \<and> from_bytes_big ''ERRO'' \<noteq> 1163088463"
  by (simp add: from_bytes_big_def)


lemma short_reply_yields_none:
  assumes "net hist (peer_ip, peer_port, file_hash, chunk_id) = Established reply segs"
    and "length reply < from_bytes_big (take 4 reply) + 4"
  shows "fst (download_chunk net hist peer_ip peer_port file_hash chunk_id) = None"
proof -
  obtain r s1 g1 where sr: "sock_recv 4 reply segs = (r, s1, g1)"
    by (cases "sock_recv 4 reply segs") auto
  show ?thesis
  proof (cases r)
    case (Inl e)
    with assms(1) sr show ?thesis by (simp add: download_chunk_def)
  next
    case (Inr size_bytes)
    from sock_recv_prefix[OF sr[unfolded Inr]] obtain m where
      m: "m \<le> 4" "size_bytes = take m reply" "s1 = drop m reply" by blast
    show ?thesis
    proof (cases "length size_bytes < 4")
      case True
      with assms(1) sr Inr show ?thesis by (simp add: download_chunk_def)
    next
      case False
      with m have m4: "m = 4" by simp
      with False m have r4: "4 \<le> length reply" by simp
      show ?thesis
      proof (cases "recv_loop (from_bytes_big size_bytes) [] s1 g1")
        case (Inl e)
        with assms(1) sr \<open>r = Inr size_bytes\<close> False show ?thesis
          by (simp add: download_chunk_def Let_def)
      next
        case (Inr data)
        from recv_loop_length[OF this] have "length data \<le> length s1" by simp
        also have "\<dots> = length reply - 4" using m m4 by simp
        also have "\<dots> < from_bytes_big (take 4 reply)" using assms(2) r4 by arith
        finally have "length data \<noteq> from_bytes_big size_bytes" using m m4 by simp
        with assms(1) sr \<open>r = Inr size_bytes\<close> False Inr show ?thesis
          by (simp add: download_chunk_def Let_def)
      qed
    qed
  qed
qed

text \<open>
  C10, amended. When the peer's whole reply is one of the three error texts, then
  \<^verbatim>\<open>download_chunk\<close> returns \<^verbatim>\<open>None\<close>, however the bytes arrive and whether or not a
  \<^verbatim>\<open>recv\<close> times out or fails: the first four bytes decode to the length 1163022927,
  which is more than the bytes that are left of the reply.
\<close>

theorem error_replies_yield_none:
  assumes "reply \<in> {''ERROR: File not found'', ''ERROR: Chunk out of range'',
                     ''ERROR: Server error''}"
    and "net hist (peer_ip, peer_port, file_hash, chunk_id) = Established reply segs"
  shows "fst (download_chunk net hist peer_ip peer_port file_hash chunk_id) = None
    \<and> from_bytes_big (take 4 reply) = 1163022927
    \<and> length reply - 4 < from_bytes_big (take 4 reply)"
proof -
  from assms(1) have l: "from_bytes_big (take 4 reply) = 1163022927" "length reply \<le> 25"
    by (auto simp: from_bytes_big_def)
  then have "length reply < from_bytes_big (take 4 reply) + 4" by simp
  with assms(2) have "fst (download_chunk net hist peer_ip peer_port file_hash chunk_id) = None"
    by (rule short_reply_yields_none[of net hist peer_ip peer_port file_hash chunk_id reply segs])
  with l show ?thesis by simp
qed

theorem error_replies_yield_none_witness:
  "''ERROR: File not found'' \<in> {''ERROR: File not found'', ''ERROR: Chunk out of range'',
                     ''ERROR: Server error''}
   \<and> (\<lambda>h c. Established ''ERROR: File not found'' [Deliver 4, Deliver 3]) []
        (''10.0.0.1'', 6000, ''abc'', 0) = Established ''ERROR: File not found'' [Deliver 4, Deliver 3]
   \<and> fst (download_chunk (\<lambda>h c. Established ''ERROR: File not found'' [Deliver 4, Deliver 3]) []
            ''10.0.0.1'' 6000 ''abc'' 0) = None"
  using error_replies_yield_none[of "''ERROR: File not found''"
      "\<lambda>h c. Established ''ERROR: File not found'' [Deliver 4, Deliver 3]" "[]"
      "''10.0.0.1''" 6000 "''abc''" 0 "[Deliver 4, Deliver 3]"]
  by simp

section \<open>Assembly and verification\<close>

lemma finish_download_refused:
  assumes "None \<notin> set slots"
    and "\<not> makedirs_ok os ''downloads/p2p_share''
         \<or> \<not> open_wb_ok os (path_join ''downloads/p2p_share'' file_hash)"
  shows "finish_download hexdigest os fs file_hash slots = (Crashed OSError, fs)"
  unfolding finish_download_def Let_def
  using assms by auto

lemma finish_download_complete:
  assumes "None \<notin> set slots"
    and "makedirs_ok os ''downloads/p2p_share''"
    and "open_wb_ok os (path_join ''downloads/p2p_share'' file_hash)"
  shows "finish_download hexdigest os fs file_hash slots =
     (if hexdigest (concat (map (\<lambda>c. case c of None \<Rightarrow> [] | Some d \<Rightarrow> d) slots)) \<noteq> file_hash
      then (HashMismatch file_hash
              (hexdigest (concat (map (\<lambda>c. case c of None \<Rightarrow> [] | Some d \<Rightarrow> d) slots))),
            fs(path_join ''downloads/p2p_share'' file_hash := None))
      else (DownloadComplete (path_join ''downloads/p2p_share'' file_hash),
            fs(path_join ''downloads/p2p_share'' file_hash \<mapsto>
               concat (map (\<lambda>c. case c of None \<Rightarrow> [] | Some d \<Rightarrow> d) slots))))"
  unfolding finish_download_def Let_def hash_stream_feeds_all
  using assms by simp

text \<open>
  C7. Once every chunk is there and the operating system has created the download
  directory and opened the output file for writing, the chunks are written to the file in
  order and the file is hashed again. If the digest differs from the expected content
  hash the outcome is the hash mismatch and the output file is removed: no file of that
  name exists afterwards, whether or not one existed before. If the digests are equal the
  outcome is the completed download and the file holds the assembled bytes.
\<close>

theorem integrity_check_outcome:
  assumes "None \<notin> set slots"
    and "makedirs_ok os ''downloads/p2p_share''"
    and "output_file = path_join ''downloads/p2p_share'' file_hash"
    and "open_wb_ok os output_file"
    and "written = concat (map (\<lambda>c. case c of None \<Rightarrow> [] | Some d \<Rightarrow> d) slots)"
  shows "(hexdigest written \<noteq> file_hash \<longrightarrow>
            finish_download hexdigest os fs file_hash slots =
              (HashMismatch file_hash (hexdigest written), fs(output_file := None))
            \<and> snd (finish_download hexdigest os fs file_hash slots) output_file = None)
       \<and> (hexdigest written = file_hash \<longrightarrow>
            finish_download hexdigest os fs file_hash slots =
              (DownloadComplete output_file, fs(output_file \<mapsto> written))
            \<and> snd (finish_download hexdigest os fs file_hash slots) output_file = Some written)"
proof -
  have w: "open_wb_ok os (path_join ''downloads/p2p_share'' file_hash)"
    using assms(4) unfolding assms(3) .
  note f = finish_download_complete[OF assms(1,2) w, of hexdigest fs, folded assms(3,5)]
  show ?thesis
  proof (cases "hexdigest written = file_hash")
    case True
    then show ?thesis unfolding f by simp
  next
    case False
    then show ?thesis unfolding f by simp
  qed
qed

theorem integrity_check_outcome_witness:
  "None \<notin> set [Some ''a'', Some ''x'']
   \<and> makedirs_ok \<lparr>makedirs_ok = (\<lambda>d. True), open_wb_ok = (\<lambda>p. p = ''downloads/p2p_share/ab'')\<rparr>
        ''downloads/p2p_share''
   \<and> open_wb_ok \<lparr>makedirs_ok = (\<lambda>d. True), open_wb_ok = (\<lambda>p. p = ''downloads/p2p_share/ab'')\<rparr>
        ''downloads/p2p_share/ab''
   \<and> finish_download id
        \<lparr>makedirs_ok = (\<lambda>d. True), open_wb_ok = (\<lambda>p. p = ''downloads/p2p_share/ab'')\<rparr>
        [''downloads/p2p_share/ab'' \<mapsto> ''old''] ''ab'' [Some ''a'', Some ''x'']
       = (HashMismatch ''ab'' ''ax'', Map.empty)
   \<and> None \<notin> set [Some ''a'', Some ''b'']
   \<and> finish_download id
        \<lparr>makedirs_ok = (\<lambda>d. True), open_wb_ok = (\<lambda>p. p = ''downloads/p2p_share/ab'')\<rparr>
        Map.empty ''ab'' [Some ''a'', Some ''b'']
       = (DownloadComplete ''downloads/p2p_share/ab'', [''downloads/p2p_share/ab'' \<mapsto> ''ab''])"
proof -
  let ?os = "\<lparr>makedirs_ok = (\<lambda>d. True), open_wb_ok = (\<lambda>p. p = ''downloads/p2p_share/ab'')\<rparr>"
  have p: "''downloads/p2p_share/ab'' = path_join ''downloads/p2p_share'' ''ab''"
    by (simp add: path_join_def)
  have m: "makedirs_ok ?os ''downloads/p2p_share''"
    and o: "open_wb_ok ?os ''downloads/p2p_share/ab''" by simp_all
  have n1: "None \<notin> set [Some ''a'', Some ''x'']" and n2: "None \<notin> set [Some ''a'', Some ''b'']"
    by simp_all
  have w1: "''ax'' = concat (map (\<lambda>c. case c of None \<Rightarrow> [] | Some d \<Rightarrow> d) [Some ''a'', Some ''x''])"
    and w2: "''ab'' = concat (map (\<lambda>c. case c of None \<Rightarrow> [] | Some d \<Rightarrow> d) [Some ''a'', Some ''b''])"
    by simp_all
  have a: "finish_download id ?os [''downloads/p2p_share/ab'' \<mapsto> ''old''] ''ab'' [Some ''a'', Some ''x'']
       = (HashMismatch ''ab'' ''ax'', Map.empty)"
    using integrity_check_outcome[OF n1 m p o w1, of id "[''downloads/p2p_share/ab'' \<mapsto> ''old'']"]
    by simp
  have b: "finish_download id ?os Map.empty ''ab'' [Some ''a'', Some ''b'']
       = (DownloadComplete ''downloads/p2p_share/ab'', [''downloads/p2p_share/ab'' \<mapsto> ''ab''])"
    using integrity_check_outcome[OF n2 m p o w2, of id Map.empty]
    by simp
  from a b n1 n2 m o show ?thesis by blast
qed

section \<open>Tracker registration\<close>

lemma update_existing_length [simp]: "length (update_existing a n cs ps) = length ps"
  by (induction ps) auto

lemma update_existing_first:
  assumes "find (\<lambda>p. ip p = a \<and> port p = n) ps = Some q"
  shows "\<exists>i < length ps. ps ! i = q \<and> ip q = a \<and> port q = n
      \<and> (\<forall>j < i. \<not> (ip (ps ! j) = a \<and> port (ps ! j) = n))
      \<and> update_existing a n cs ps = ps[i := q\<lparr>chunks := cs\<rparr>]"
  using assms
proof (induction ps)
  case Nil
  then show ?case by simp
next
  case (Cons p ps)
  show ?case
  proof (cases "ip p = a \<and> port p = n")
    case True
    with Cons.prems have "p = q" by simp
    with True show ?thesis by (intro exI[of _ 0]) simp
  next
    case False
    with Cons.prems have "find (\<lambda>p. ip p = a \<and> port p = n) ps = Some q" by simp
    from Cons.IH[OF this] obtain i where i: "i < length ps" "ps ! i = q" "ip q = a \<and> port q = n"
      "\<forall>j < i. \<not> (ip (ps ! j) = a \<and> port (ps ! j) = n)"
      "update_existing a n cs ps = ps[i := q\<lparr>chunks := cs\<rparr>]" by blast
    have "\<forall>j < Suc i. \<not> (ip ((p # ps) ! j) = a \<and> port ((p # ps) ! j) = n)"
      using i(4) False by (auto simp: less_Suc_eq_0_disj)
    with i False show ?thesis by (intro exI[of _ "Suc i"]) auto
  qed
qed

text \<open>
  C9. Registering, with all fields given, a peer whose address (ip, port) is already
  listed for the file: the answer is the update message with the old peer count; the
  registry changes only in that the first listed peer with that address, at its place in
  the list, gets the new chunk list, so the list keeps its length; and if the new chunk
  list is the one that peer already had, the registry does not change at all.
\<close>

theorem register_existing_peer:
  assumes "files h = Some entry"
    and "find (\<lambda>p. ip p = a \<and> port p = n) (peers entry) = Some q"
    and "data = \<lparr>body_file_name = Some nm, body_file_hash = Some h, body_file_size = Some sz,
                 body_chunks = Some cs, body_ip = Some a, body_port = Some n\<rparr>"
  shows "\<exists>i < length (peers entry).
      peers entry ! i = q \<and> ip q = a \<and> port q = n
      \<and> (\<forall>j < i. \<not> (ip (peers entry ! j) = a \<and> port (peers entry ! j) = n))
      \<and> register files data =
          (Ok ''Peer updated successfully'' h (length (peers entry)),
           files(h \<mapsto> entry\<lparr>peers := (peers entry)[i := q\<lparr>chunks := cs\<rparr>]\<rparr>))
      \<and> length ((peers entry)[i := q\<lparr>chunks := cs\<rparr>]) = length (peers entry)
      \<and> (chunks q = cs \<longrightarrow>
           register files data = (Ok ''Peer updated successfully'' h (length (peers entry)), files))"
proof -
  from update_existing_first[OF assms(2), of cs] obtain i where
    i: "i < length (peers entry)" "peers entry ! i = q" "ip q = a \<and> port q = n"
      "\<forall>j < i. \<not> (ip (peers entry ! j) = a \<and> port (peers entry ! j) = n)"
      "update_existing a n cs (peers entry) = (peers entry)[i := q\<lparr>chunks := cs\<rparr>]" by blast
  have r: "register files data =
          (Ok ''Peer updated successfully'' h (length (peers entry)),
           files(h \<mapsto> entry\<lparr>peers := (peers entry)[i := q\<lparr>chunks := cs\<rparr>]\<rparr>))"
    using assms i(5) by (simp add: register_def Let_def)
  have same: "register files data = (Ok ''Peer updated successfully'' h (length (peers entry)), files)"
    if "chunks q = cs"
  proof -
    from that have "q\<lparr>chunks := cs\<rparr> = q" by simp
    moreover have "(peers entry)[i := peers entry ! i] = peers entry" by (rule list_update_id)
    ultimately have "(peers entry)[i := q\<lparr>chunks := cs\<rparr>] = peers entry"
      unfolding i(2) by (simp only:)
    then have "entry\<lparr>peers := (peers entry)[i := q\<lparr>chunks := cs\<rparr>]\<rparr> = entry" by simp
    then have "files(h \<mapsto> entry\<lparr>peers := (peers entry)[i := q\<lparr>chunks := cs\<rparr>]\<rparr>) = files"
      using assms(1) by (simp add: fun_upd_idem)
    with r show ?thesis by simp
  qed
  from i r same show ?thesis by (intro exI[of _ i]) simp
qed


theorem register_existing_peer_witness:
  "[''h1'' \<mapsto> \<lparr>file_name = ''f.txt'', file_size = 2048,
        peers = [\<lparr>ip = ''10.0.0.1'', port = 6000, chunks = [0]\<rparr>,
                 \<lparr>ip = ''10.0.0.2'', port = 6001, chunks = [0, 1]\<rparr>]\<rparr>] ''h1''
     = Some \<lparr>file_name = ''f.txt'', file_size = 2048,
        peers = [\<lparr>ip = ''10.0.0.1'', port = 6000, chunks = [0]\<rparr>,
                 \<lparr>ip = ''10.0.0.2'', port = 6001, chunks = [0, 1]\<rparr>]\<rparr>
   \<and> find (\<lambda>p. ip p = ''10.0.0.2'' \<and> port p = 6001)
        [\<lparr>ip = ''10.0.0.1'', port = 6000, chunks = [0]\<rparr>,
         \<lparr>ip = ''10.0.0.2'', port = 6001, chunks = [0, 1]\<rparr>]
     = Some \<lparr>ip = ''10.0.0.2'', port = 6001, chunks = [0, 1]\<rparr>
   \<and> fst (register
        [''h1'' \<mapsto> \<lparr>file_name = ''f.txt'', file_size = 2048,
          peers = [\<lparr>ip = ''10.0.0.1'', port = 6000, chunks = [0]\<rparr>,
                   \<lparr>ip = ''10.0.0.2'', port = 6001, chunks = [0, 1]\<rparr>]\<rparr>]
        \<lparr>body_file_name = Some ''f.txt'', body_file_hash = Some ''h1'', body_file_size = Some 2048,
         body_chunks = Some [1], body_ip = Some ''10.0.0.2'', body_port = Some 6001\<rparr>)
     = Ok ''Peer updated successfully'' ''h1'' 2
   \<and> map_option peers (snd (register
        [''h1'' \<mapsto> \<lparr>file_name = ''f.txt'', file_size = 2048,
          peers = [\<lparr>ip = ''10.0.0.1'', port = 6000, chunks = [0]\<rparr>,
                   \<lparr>ip = ''10.0.0.2'', port = 6001, chunks = [0, 1]\<rparr>]\<rparr>]
        \<lparr>body_file_name = Some ''f.txt'', body_file_hash = Some ''h1'', body_file_size = Some 2048,
         body_chunks = Some [1], body_ip = Some ''10.0.0.2'', body_port = Some 6001\<rparr>) ''h1'')
     = Some [\<lparr>ip = ''10.0.0.1'', port = 6000, chunks = [0]\<rparr>,
             \<lparr>ip = ''10.0.0.2'', port = 6001, chunks = [1]\<rparr>]"
proof -
  let ?p1 = "\<lparr>ip = ''10.0.0.1'', port = 6000, chunks = [0]\<rparr>"
  let ?p2 = "\<lparr>ip = ''10.0.0.2'', port = 6001, chunks = [0, 1]\<rparr>"
  let ?e = "\<lparr>file_name = ''f.txt'', file_size = 2048, peers = [?p1, ?p2]\<rparr>"
  let ?files = "[''h1'' \<mapsto> ?e]"
  let ?data = "\<lparr>body_file_name = Some ''f.txt'', body_file_hash = Some ''h1'',
      body_file_size = Some 2048, body_chunks = Some [1], body_ip = Some ''10.0.0.2'',
      body_port = Some 6001\<rparr>"
  have h1: "?files ''h1'' = Some ?e" by simp
  have h2: "find (\<lambda>p. ip p = ''10.0.0.2'' \<and> port p = 6001) (peers ?e) = Some ?p2" by simp
  have "fst (register ?files ?data) = Ok ''Peer updated successfully'' ''h1'' 2"
    using register_existing_peer[of ?files "''h1''" ?e "''10.0.0.2''" 6001 ?p2 ?data
        "''f.txt''" 2048 "[1]"] h1 h2
    by auto
  moreover have "map_option peers (snd (register ?files ?data) ''h1'') =
      Some [?p1, \<lparr>ip = ''10.0.0.2'', port = 6001, chunks = [1]\<rparr>]"
    by (simp add: register_def Let_def)
  ultimately show ?thesis using h1 h2 by simp
qed

section \<open>Retry pass\<close>

lemma download_chunk_history:
  "snd (download_chunk net h a n fh cid) = h @ [(a, n, fh, cid)]"
  by (simp add: download_chunk_def Let_def)

lemma attempt_0: "attempt net h fh cid (p # ps) 0 = fst (download_chunk net h (ip p) (port p) fh cid)"
  by (simp add: attempt_def)

lemma attempt_Suc:
  "attempt net h fh cid (p # ps) (Suc j) = attempt net (h @ [(ip p, port p, fh, cid)]) fh cid ps j"
  by (simp add: attempt_def)

lemma retry_chunk_spec:
  assumes "list_index (output_chunks st) cid = Some k"
  shows "\<exists>m st'. m \<le> length ps \<and> retry_chunk net fh cid ps st = Inr st'
     \<and> history st' = history st @ map (\<lambda>p. (ip p, port p, fh, cid)) (take m ps)
     \<and> failed_chunks st' = failed_chunks st
     \<and> ((m = length ps \<and> (\<forall>j < m. \<not> truthy (attempt net (history st) fh cid ps j))
          \<and> output_chunks st' = output_chunks st
          \<and> successful_downloads st' = successful_downloads st)
        \<or> (0 < m \<and> (\<forall>j < m - 1. \<not> truthy (attempt net (history st) fh cid ps j))
          \<and> truthy (attempt net (history st) fh cid ps (m - 1))
          \<and> output_chunks st' = (output_chunks st)[k := attempt net (history st) fh cid ps (m - 1)]
          \<and> successful_downloads st' = Suc (successful_downloads st)))"
  using assms
proof (induction ps arbitrary: st)
  case Nil
  then show ?case by simp
next
  case (Cons p ps)
  let ?call = "\<lambda>p. (ip p, port p, fh, cid)"
  obtain data h where dl: "download_chunk net (history st) (ip p) (port p) fh cid = (data, h)"
    by (cases "download_chunk net (history st) (ip p) (port p) fh cid") auto
  have h: "h = history st @ [?call p]" using download_chunk_history[of net "history st" "ip p" "port p" fh cid] dl by simp
  have d0: "attempt net (history st) fh cid (p # ps) 0 = data" by (simp add: attempt_0 dl)
  let ?st1 = "st\<lparr>history := h\<rparr>"
  show ?case
  proof (cases "truthy data")
    case True
    let ?st' = "?st1\<lparr>output_chunks := (output_chunks ?st1)[k := data],
                     successful_downloads := successful_downloads ?st1 + 1\<rparr>"
    have r: "retry_chunk net fh cid (p # ps) st = Inr ?st'"
      using dl True Cons.prems by simp
    show ?thesis
      apply (rule exI[of _ "Suc 0"], rule exI[of _ ?st'])
      using r True d0 h by simp
  next
    case False
    have r: "retry_chunk net fh cid (p # ps) st = retry_chunk net fh cid ps ?st1"
      using dl False by simp
    have "list_index (output_chunks ?st1) cid = Some k" using Cons.prems by simp
    from Cons.IH[OF this] obtain m st' where
      m: "m \<le> length ps" "retry_chunk net fh cid ps ?st1 = Inr st'"
      "history st' = history ?st1 @ map ?call (take m ps)"
      "failed_chunks st' = failed_chunks ?st1"
      "(m = length ps \<and> (\<forall>j < m. \<not> truthy (attempt net (history ?st1) fh cid ps j))
          \<and> output_chunks st' = output_chunks ?st1
          \<and> successful_downloads st' = successful_downloads ?st1)
        \<or> (0 < m \<and> (\<forall>j < m - 1. \<not> truthy (attempt net (history ?st1) fh cid ps j))
          \<and> truthy (attempt net (history ?st1) fh cid ps (m - 1))
          \<and> output_chunks st' = (output_chunks ?st1)[k := attempt net (history ?st1) fh cid ps (m - 1)]
          \<and> successful_downloads st' = Suc (successful_downloads ?st1))"
      by blast
    have sh: "attempt net (history st) fh cid (p # ps) (Suc j) = attempt net (history ?st1) fh cid ps j" for j
      by (simp add: attempt_Suc h)
    have all: "(\<forall>j < Suc n. \<not> truthy (attempt net (history st) fh cid (p # ps) j)) \<longleftrightarrow>
               (\<forall>j < n. \<not> truthy (attempt net (history ?st1) fh cid ps j))" for n
      using False d0 by (simp add: All_less_Suc2 sh)
    from m(5) have "(Suc m = length (p # ps) \<and> (\<forall>j < Suc m. \<not> truthy (attempt net (history st) fh cid (p # ps) j))
          \<and> output_chunks st' = output_chunks st
          \<and> successful_downloads st' = successful_downloads st)
        \<or> (0 < Suc m \<and> (\<forall>j < Suc m - 1. \<not> truthy (attempt net (history st) fh cid (p # ps) j))
          \<and> truthy (attempt net (history st) fh cid (p # ps) (Suc m - 1))
          \<and> output_chunks st' = (output_chunks st)[k := attempt net (history st) fh cid (p # ps) (Suc m - 1)]
          \<and> successful_downloads st' = Suc (successful_downloads st))"
    proof (elim disjE conjE)
      assume a: "m = length ps" "\<forall>j < m. \<not> truthy (attempt net (history ?st1) fh cid ps j)"
        "output_chunks st' = output_chunks ?st1" "successful_downloads st' = successful_downloads ?st1"
      then show ?thesis using all[of m] by simp
    next
      assume a: "0 < m" "\<forall>j < m - 1. \<not> truthy (attempt net (history ?st1) fh cid ps j)"
        "truthy (attempt net (history ?st1) fh cid ps (m - 1))"
        "output_chunks st' = (output_chunks ?st1)[k := attempt net (history ?st1) fh cid ps (m - 1)]"
        "successful_downloads st' = Suc (successful_downloads ?st1)"
      from a(1) obtain m' where m': "m = Suc m'" by (cases m) auto
      have "\<forall>j < Suc m'. \<not> truthy (attempt net (history st) fh cid (p # ps) j)"
        using all[of m'] a(2) m' by simp
      moreover have "attempt net (history st) fh cid (p # ps) (Suc m') = attempt net (history ?st1) fh cid ps m'"
        by (rule sh)
      ultimately show ?thesis using a m' by simp
    qed
    then show ?thesis
      apply (intro exI[of _ "Suc m"] exI[of _ st'])
      using m r h by simp
  qed
qed


lemma retry_failed_append:
  "retry_failed net fh av (pre @ rest) st0 =
     (case retry_failed net fh av pre st0 of
        Inl e \<Rightarrow> Inl e
      | Inr st \<Rightarrow> retry_failed net fh av rest st)"
  by (induction pre arbitrary: st0) (auto split: sum.splits)

lemma list_index_less: "list_index xs i = Some k \<Longrightarrow> k < length xs"
  by (auto simp: list_index_def Let_def split: if_splits)

lemma truthy_Some: "truthy v \<Longrightarrow> v \<noteq> None"
  by (cases v) (simp_all add: truthy_def)

lemma list_index_valid:
  "0 \<le> c \<Longrightarrow> c < int (length xs) \<Longrightarrow> list_index xs c = Some (nat c)"
  by (simp add: list_index_def Let_def)

lemma run_tasks_ids:
  "run_tasks net fh tasks h0 = (results, h) \<Longrightarrow>
     map fst results = map (\<lambda>t. snd (snd t)) tasks"
proof (induction tasks arbitrary: h0 results h)
  case Nil
  then show ?case by simp
next
  case (Cons t tasks)
  obtain a n c where t: "t = (a, n, c)" by (cases t) auto
  obtain r h1 where w: "download_chunk_wrapper net h0 a n fh c = (r, h1)"
    by (cases "download_chunk_wrapper net h0 a n fh c") auto
  obtain rs h2 where rt: "run_tasks net fh tasks h1 = (rs, h2)"
    by (cases "run_tasks net fh tasks h1") auto
  have "fst r = c" using w by (auto simp: download_chunk_wrapper_def Let_def split: prod.splits)
  moreover have "results = r # rs" using Cons.prems t w rt by simp
  moreover have "map fst rs = map (\<lambda>t. snd (snd t)) tasks" using Cons.IH[OF rt] .
  ultimately show ?case using t by simp
qed

lemma collect_results_spec:
  assumes "distinct (map fst rs)"
    and "\<forall>r \<in> set rs. 0 \<le> fst r \<and> fst r < int (length (output_chunks st))"
    and "\<forall>r \<in> set rs. output_chunks st ! nat (fst r) = None"
  shows "\<exists>st'. collect_results rs st = Inr st'
     \<and> failed_chunks st' = failed_chunks st @ map fst (filter (\<lambda>r. \<not> truthy (snd r)) rs)
     \<and> history st' = history st
     \<and> length (output_chunks st') = length (output_chunks st)
     \<and> (\<forall>r \<in> set rs. \<not> truthy (snd r) \<longrightarrow> output_chunks st' ! nat (fst r) = None)
     \<and> (\<forall>i. (\<forall>r \<in> set rs. nat (fst r) \<noteq> i) \<longrightarrow> output_chunks st' ! i = output_chunks st ! i)"
  using assms
proof (induction rs arbitrary: st)
  case Nil
  then show ?case by simp
next
  case (Cons r rs)
  obtain c d where r: "r = (c, d)" by (cases r) auto
  have c: "0 \<le> c" "c < int (length (output_chunks st))" "output_chunks st ! nat c = None"
    using Cons.prems(2,3) r by auto
  have dist: "distinct (map fst rs)" and notin: "c \<notin> fst ` set rs"
    using Cons.prems(1) r by auto
  have other: "nat (fst x) \<noteq> nat c" if "x \<in> set rs" for x
  proof -
    from that have "fst x \<noteq> c" using notin by auto
    moreover have "0 \<le> fst x" using Cons.prems(2) that by simp
    ultimately show ?thesis using c(1) by simp
  qed
  show ?case
  proof (cases "truthy d")
    case True
    let ?st1 = "st\<lparr>output_chunks := (output_chunks st)[nat c := d],
                    successful_downloads := successful_downloads st + 1\<rparr>"
    have step: "collect_results (r # rs) st = collect_results rs ?st1"
      using True r c by (simp add: list_index_valid)
    have p2: "\<forall>r \<in> set rs. 0 \<le> fst r \<and> fst r < int (length (output_chunks ?st1))"
      using Cons.prems(2) by simp
    have p3: "\<forall>r \<in> set rs. output_chunks ?st1 ! nat (fst r) = None"
    proof
      fix x assume x: "x \<in> set rs"
      from other[OF x] have "nat c \<noteq> nat (fst x)" by simp
      then show "output_chunks ?st1 ! nat (fst x) = None" using Cons.prems(3) x by simp
    qed
    from Cons.IH[OF dist p2 p3] obtain st' where st':
      "collect_results rs ?st1 = Inr st'"
      "failed_chunks st' = failed_chunks ?st1 @ map fst (filter (\<lambda>r. \<not> truthy (snd r)) rs)"
      "history st' = history ?st1"
      "length (output_chunks st') = length (output_chunks ?st1)"
      "\<forall>r \<in> set rs. \<not> truthy (snd r) \<longrightarrow> output_chunks st' ! nat (fst r) = None"
      "\<forall>i. (\<forall>r \<in> set rs. nat (fst r) \<noteq> i) \<longrightarrow> output_chunks st' ! i = output_chunks ?st1 ! i"
      by blast
    have frame: "\<forall>i. (\<forall>x \<in> set (r # rs). nat (fst x) \<noteq> i) \<longrightarrow>
        output_chunks st' ! i = output_chunks st ! i"
      using st'(6) r by simp
    show ?thesis
      apply (rule exI[of _ st'])
      using step True r st'(1-5) frame by simp
  next
    case False
    let ?st1 = "st\<lparr>failed_chunks := failed_chunks st @ [c]\<rparr>"
    have step: "collect_results (r # rs) st = collect_results rs ?st1"
      using False r by simp
    have p2: "\<forall>r \<in> set rs. 0 \<le> fst r \<and> fst r < int (length (output_chunks ?st1))"
      using Cons.prems(2) by simp
    have p3: "\<forall>r \<in> set rs. output_chunks ?st1 ! nat (fst r) = None"
      using Cons.prems(3) by simp
    from Cons.IH[OF dist p2 p3] obtain st' where st':
      "collect_results rs ?st1 = Inr st'"
      "failed_chunks st' = failed_chunks ?st1 @ map fst (filter (\<lambda>r. \<not> truthy (snd r)) rs)"
      "history st' = history ?st1"
      "length (output_chunks st') = length (output_chunks ?st1)"
      "\<forall>r \<in> set rs. \<not> truthy (snd r) \<longrightarrow> output_chunks st' ! nat (fst r) = None"
      "\<forall>i. (\<forall>r \<in> set rs. nat (fst r) \<noteq> i) \<longrightarrow> output_chunks st' ! i = output_chunks ?st1 ! i"
      by blast
    have "\<forall>x \<in> set rs. nat (fst x) \<noteq> nat c" using other by simp
    with st'(6) have keep: "output_chunks st' ! nat c = None" using c(3) by simp
    have frame: "\<forall>i. (\<forall>x \<in> set (r # rs). nat (fst x) \<noteq> i) \<longrightarrow>
        output_chunks st' ! i = output_chunks st ! i"
      using st'(6) by simp
    show ?thesis
      apply (rule exI[of _ st'])
      using step False r st'(1-5) keep frame by simp
  qed
qed

lemma retry_chunk_frame:
  assumes "list_index (output_chunks st) cid = Some k"
  shows "\<exists>st'. retry_chunk net fh cid ps st = Inr st'
     \<and> length (output_chunks st') = length (output_chunks st)
     \<and> failed_chunks st' = failed_chunks st
     \<and> (\<forall>i. i \<noteq> k \<longrightarrow> output_chunks st' ! i = output_chunks st ! i)"
proof -
  from retry_chunk_spec[OF assms, of ps net fh] obtain m st' where
    r: "retry_chunk net fh cid ps st = Inr st'" "failed_chunks st' = failed_chunks st"
    and d: "output_chunks st' = output_chunks st
        \<or> output_chunks st' = (output_chunks st)[k := attempt net (history st) fh cid ps (m - 1)]"
    by blast
  from d have "length (output_chunks st') = length (output_chunks st)
     \<and> (\<forall>i. i \<noteq> k \<longrightarrow> output_chunks st' ! i = output_chunks st ! i)"
    by (elim disjE) simp_all
  with r show ?thesis by blast
qed

lemma retry_failed_frame:
  assumes "\<forall>c \<in> set cs. 0 \<le> c \<and> c < int (length (output_chunks st0))"
  shows "\<exists>st. retry_failed net fh av cs st0 = Inr st
     \<and> length (output_chunks st) = length (output_chunks st0)
     \<and> failed_chunks st = failed_chunks st0
     \<and> (\<forall>i. (\<forall>c \<in> set cs. nat c \<noteq> i) \<longrightarrow> output_chunks st ! i = output_chunks st0 ! i)"
  using assms
proof (induction cs arbitrary: st0)
  case Nil
  then show ?case by simp
next
  case (Cons c cs)
  have "list_index (output_chunks st0) c = Some (nat c)"
    using Cons.prems by (simp add: list_index_valid)
  from retry_chunk_frame[OF this, of net fh "candidates av c"] obtain st1 where st1:
    "retry_chunk net fh c (candidates av c) st0 = Inr st1"
    "length (output_chunks st1) = length (output_chunks st0)"
    "failed_chunks st1 = failed_chunks st0"
    "\<forall>i. i \<noteq> nat c \<longrightarrow> output_chunks st1 ! i = output_chunks st0 ! i"
    by blast
  have "\<forall>c \<in> set cs. 0 \<le> c \<and> c < int (length (output_chunks st1))"
    using Cons.prems st1(2) by simp
  from Cons.IH[OF this] obtain st where st:
    "retry_failed net fh av cs st1 = Inr st"
    "length (output_chunks st) = length (output_chunks st1)"
    "failed_chunks st = failed_chunks st1"
    "\<forall>i. (\<forall>c \<in> set cs. nat c \<noteq> i) \<longrightarrow> output_chunks st ! i = output_chunks st1 ! i"
    by blast
  show ?case
    apply (rule exI[of _ st])
    using st1 st by simp
qed


lemma retry_turn_full:
  assumes "list_index (output_chunks st) cid = Some k"
    and "output_chunks st ! k = None"
  shows "\<exists>m st'. m \<le> length ps
     \<and> retry_chunk net fh cid ps st = Inr st'
     \<and> length (output_chunks st') = length (output_chunks st)
     \<and> history st' = history st @ map (\<lambda>p. (ip p, port p, fh, cid)) (take m ps)
     \<and> (\<forall>j < m. truthy (attempt net (history st) fh cid ps j) \<longrightarrow>
           Suc j = m \<and> output_chunks st' = (output_chunks st)[k := attempt net (history st) fh cid ps j])
     \<and> (m < length ps \<longrightarrow> 0 < m \<and> truthy (attempt net (history st) fh cid ps (m - 1)))
     \<and> (output_chunks st' ! k \<noteq> None \<longleftrightarrow> (\<exists>j < m. truthy (attempt net (history st) fh cid ps j)))"
proof -
  let ?A = "attempt net (history st) fh cid ps"
  from retry_chunk_spec[OF assms(1), of ps net fh] obtain m st' where
    m: "m \<le> length ps" "retry_chunk net fh cid ps st = Inr st'"
      "history st' = history st @ map (\<lambda>p. (ip p, port p, fh, cid)) (take m ps)"
    and d: "(m = length ps \<and> (\<forall>j < m. \<not> truthy (?A j))
          \<and> output_chunks st' = output_chunks st
          \<and> successful_downloads st' = successful_downloads st)
        \<or> (0 < m \<and> (\<forall>j < m - 1. \<not> truthy (?A j))
          \<and> truthy (?A (m - 1))
          \<and> output_chunks st' = (output_chunks st)[k := ?A (m - 1)]
          \<and> successful_downloads st' = Suc (successful_downloads st))"
    by blast
  have k: "k < length (output_chunks st)" using assms(1) by (rule list_index_less)
  from d have len: "length (output_chunks st') = length (output_chunks st)"
    by (elim disjE conjE) simp_all
  have stop: "\<forall>j < m. truthy (?A j) \<longrightarrow>
      Suc j = m \<and> output_chunks st' = (output_chunks st)[k := ?A j]"
  proof (intro allI impI)
    fix j assume j: "j < m" "truthy (?A j)"
    from d j have a: "\<forall>j < m - 1. \<not> truthy (?A j)"
      "output_chunks st' = (output_chunks st)[k := ?A (m - 1)]" by blast+
    have "\<not> j < m - 1" using a(1) j(2) by blast
    with j(1) have "Suc j = m" by simp
    moreover from this have "m - 1 = j" by simp
    ultimately show "Suc j = m \<and> output_chunks st' = (output_chunks st)[k := ?A j]"
      using a(2) by simp
  qed
  have early: "m < length ps \<longrightarrow> 0 < m \<and> truthy (?A (m - 1))"
    using d by blast
  have filled: "output_chunks st' ! k \<noteq> None \<longleftrightarrow> (\<exists>j < m. truthy (?A j))"
  proof
    assume f: "output_chunks st' ! k \<noteq> None"
    with assms(2) have "output_chunks st' \<noteq> output_chunks st" by metis
    with d have "0 < m" "truthy (?A (m - 1))" by blast+
    then show "\<exists>j < m. truthy (?A j)" by (intro exI[of _ "m - 1"]) simp
  next
    assume "\<exists>j < m. truthy (?A j)"
    then obtain j where j: "j < m" "truthy (?A j)" by blast
    with stop have "output_chunks st' = (output_chunks st)[k := ?A j]" by blast
    then have "output_chunks st' ! k = ?A j" using k by simp
    with j(2) show "output_chunks st' ! k \<noteq> None" by (simp add: truthy_Some)
  qed
  show ?thesis
    apply (rule exI[of _ m], rule exI[of _ st'])
    using m len stop early filled by (intro conjI)
qed

lemma fetch_chunks_unfold:
  assumes "n = (sz + CHUNK_SIZE - 1) div CHUNK_SIZE"
    and "av = build_chunk_availability_map ps n"
    and "run_tasks net fh (create_download_plan rnd av n) [] = (results, h)"
    and "collect_results results
           \<lparr>output_chunks = replicate (nat n) None, successful_downloads = 0,
            failed_chunks = [], history = h\<rparr> = Inr st1"
  shows "fetch_chunks rnd net ps sz fh = retry_failed net fh av (failed_chunks st1) st1"
  unfolding fetch_chunks_def Let_def assms(1)[symmetric] assms(2)[symmetric] assms(3)
  by (simp add: assms(4))


text \<open>
  C6, amended. Take a download whose primary pass returned no data for a chunk id. The
  collecting loop puts the id on the list of failed chunks; when its turn comes in the
  retry pass, after the chunks before it, its slot is still empty. The candidates of the
  chunk in the availability index are then asked one after the other in the order of the
  index, all of them, the peer of the primary pass included: the requests made are those to
  the first \<open>m\<close> candidates. A request that yields data is the last one and its data fill
  the slot; the retry stops before the end of the list only after such a request. The
  pass goes on with the failed chunks behind it and the download ends without an error;
  in the final buffer the slot is filled if and only if one of the requests made for it
  yielded data.
\<close>

theorem retry_pass_tries_all_candidates:
  assumes "n = (sz + CHUNK_SIZE - 1) div CHUNK_SIZE"
    and "av = build_chunk_availability_map ps n"
    and "run_tasks net fh (create_download_plan rnd av n) [] = (results, h)"
    and "(cid, data) \<in> set results"
    and "\<not> truthy data"
  shows "\<exists>st1 pre post st m st' final.
       collect_results results
         \<lparr>output_chunks = replicate (nat n) None, successful_downloads = 0,
          failed_chunks = [], history = h\<rparr> = Inr st1
     \<and> failed_chunks st1 = pre @ cid # post
     \<and> retry_failed net fh av pre st1 = Inr st
     \<and> output_chunks st ! nat cid = None
     \<and> m \<le> length (candidates av cid)
     \<and> retry_chunk net fh cid (candidates av cid) st = Inr st'
     \<and> history st' =
         history st @ map (\<lambda>p. (ip p, port p, fh, cid)) (take m (candidates av cid))
     \<and> (\<forall>j < m. truthy (attempt net (history st) fh cid (candidates av cid) j) \<longrightarrow>
           Suc j = m
           \<and> output_chunks st' =
               (output_chunks st)[nat cid := attempt net (history st) fh cid (candidates av cid) j])
     \<and> (m < length (candidates av cid) \<longrightarrow>
           0 < m \<and> truthy (attempt net (history st) fh cid (candidates av cid) (m - 1)))
     \<and> retry_failed net fh av post st' = Inr final
     \<and> fetch_chunks rnd net ps sz fh = Inr final
     \<and> (output_chunks final ! nat cid \<noteq> None \<longleftrightarrow>
           (\<exists>j < m. truthy (attempt net (history st) fh cid (candidates av cid) j)))"
proof -
  let ?init = "\<lparr>output_chunks = replicate (nat n) None, successful_downloads = 0,
          failed_chunks = [], history = h\<rparr>"
  let ?cs = "candidates av cid"
  have ids: "map fst results = filter (\<lambda>c. candidates av c \<noteq> []) [0..n - 1]"
    using run_tasks_ids[OF assms(3)] plan_chunk_ids[of rnd av n] by simp
  then have dist: "distinct (map fst results)" by simp
  have range: "0 \<le> fst r \<and> fst r < n" if "r \<in> set results" for r
  proof -
    from that have "fst r \<in> set (map fst results)" by simp
    then show ?thesis unfolding ids by simp
  qed
  have p2: "\<forall>r \<in> set results. 0 \<le> fst r \<and> fst r < int (length (output_chunks ?init))"
  proof
    fix r assume "r \<in> set results"
    from range[OF this] have "0 \<le> fst r" "fst r < int (nat n)" by simp_all
    then show "0 \<le> fst r \<and> fst r < int (length (output_chunks ?init))" by simp
  qed
  have p3: "\<forall>r \<in> set results. output_chunks ?init ! nat (fst r) = None"
  proof
    fix r assume "r \<in> set results"
    from range[OF this] have "nat (fst r) < nat n" by simp
    then show "output_chunks ?init ! nat (fst r) = None" by simp
  qed
  from collect_results_spec[OF dist p2 p3] obtain st1 where st1:
    "collect_results results ?init = Inr st1"
    "failed_chunks st1 = failed_chunks ?init @ map fst (filter (\<lambda>r. \<not> truthy (snd r)) results)"
    "length (output_chunks st1) = length (output_chunks ?init)"
    "\<forall>r \<in> set results. \<not> truthy (snd r) \<longrightarrow> output_chunks st1 ! nat (fst r) = None"
    by blast
  have failed: "failed_chunks st1 = map fst (filter (\<lambda>r. \<not> truthy (snd r)) results)"
    using st1(2) by simp
  have fdist: "distinct (failed_chunks st1)"
    unfolding failed using dist by (rule distinct_map_filter)
  have len1: "length (output_chunks st1) = nat n" using st1(3) by simp
  have valid: "0 \<le> c \<and> c < int (length (output_chunks st1))" if "c \<in> set (failed_chunks st1)" for c
  proof -
    from that obtain r where "r \<in> set results" "fst r = c" unfolding failed by auto
    with range[of r] show ?thesis using len1 by simp
  qed
  have "(cid, data) \<in> set (filter (\<lambda>r. \<not> truthy (snd r)) results)"
    using assms(4,5) by simp
  then have "cid \<in> set (failed_chunks st1)" unfolding failed by force
  then obtain pre post where split: "failed_chunks st1 = pre @ cid # post"
    by (meson split_list)
  with fdist have nin: "cid \<notin> set pre" "cid \<notin> set post" by auto
  have cidv: "0 \<le> cid" "cid < int (length (output_chunks st1))"
    using valid[of cid] split by simp_all
  have none1: "output_chunks st1 ! nat cid = None"
    using st1(4) assms(4,5) by force
  have vpre: "\<forall>c \<in> set pre. 0 \<le> c \<and> c < int (length (output_chunks st1))"
    using valid split by simp
  from retry_failed_frame[OF vpre, of net fh av] obtain st where st:
    "retry_failed net fh av pre st1 = Inr st"
    "length (output_chunks st) = length (output_chunks st1)"
    "\<forall>i. (\<forall>c \<in> set pre. nat c \<noteq> i) \<longrightarrow> output_chunks st ! i = output_chunks st1 ! i"
    by blast
  have "\<forall>c \<in> set pre. nat c \<noteq> nat cid"
  proof
    fix c assume c: "c \<in> set pre"
    then have "c \<noteq> cid" using nin(1) by auto
    moreover have "0 \<le> c" using vpre c by simp
    ultimately show "nat c \<noteq> nat cid" using cidv(1) by simp
  qed
  with st(3) none1 have none: "output_chunks st ! nat cid = None" by simp
  have li: "list_index (output_chunks st) cid = Some (nat cid)"
    using cidv st(2) by (simp add: list_index_valid)
  from retry_turn_full[OF li none, of ?cs net fh] obtain m st' where t:
    "m \<le> length ?cs"
    "retry_chunk net fh cid ?cs st = Inr st'"
    "length (output_chunks st') = length (output_chunks st)"
    "history st' = history st @ map (\<lambda>p. (ip p, port p, fh, cid)) (take m ?cs)"
    "\<forall>j < m. truthy (attempt net (history st) fh cid ?cs j) \<longrightarrow>
           Suc j = m
           \<and> output_chunks st' = (output_chunks st)[nat cid := attempt net (history st) fh cid ?cs j]"
    "m < length ?cs \<longrightarrow> 0 < m \<and> truthy (attempt net (history st) fh cid ?cs (m - 1))"
    "output_chunks st' ! nat cid \<noteq> None \<longleftrightarrow> (\<exists>j < m. truthy (attempt net (history st) fh cid ?cs j))"
    by blast
  have vpost: "\<forall>c \<in> set post. 0 \<le> c \<and> c < int (length (output_chunks st'))"
    using valid split t(3) st(2) by simp
  from retry_failed_frame[OF vpost, of net fh av] obtain final where final:
    "retry_failed net fh av post st' = Inr final"
    "\<forall>i. (\<forall>c \<in> set post. nat c \<noteq> i) \<longrightarrow> output_chunks final ! i = output_chunks st' ! i"
    by blast
  have "\<forall>c \<in> set post. nat c \<noteq> nat cid"
  proof
    fix c assume c: "c \<in> set post"
    then have "c \<noteq> cid" using nin(2) by auto
    moreover have "0 \<le> c" using vpost c by simp
    ultimately show "nat c \<noteq> nat cid" using cidv(1) by simp
  qed
  with final(2) have same: "output_chunks final ! nat cid = output_chunks st' ! nat cid" by simp
  have run: "fetch_chunks rnd net ps sz fh = Inr final"
    unfolding fetch_chunks_unfold[OF assms(1,2,3) st1(1)] split
    using st(1) t(2) final(1) by (simp add: retry_failed_append)
  have filled: "output_chunks final ! nat cid \<noteq> None \<longleftrightarrow>
      (\<exists>j < m. truthy (attempt net (history st) fh cid ?cs j))"
    unfolding same by (rule t(7))
  show ?thesis
    apply (rule exI[of _ st1], rule exI[of _ pre], rule exI[of _ post], rule exI[of _ st],
        rule exI[of _ m], rule exI[of _ st'], rule exI[of _ final])
    using st1(1) split st(1) none t(1,2,4,5,6) final(1) run filled by (intro conjI)
qed

lemma flaky_fails:
  "length h < k \<Longrightarrow>
     download_chunk (flaky_network k) h a n fh c = (None, h @ [(a, n, fh, c)])"
  by (simp add: download_chunk_def flaky_network_def)

lemma flaky_answers:
  "\<not> length h < k \<Longrightarrow>
     download_chunk (flaky_network k) h a n fh c = (Some ''hello'', h @ [(a, n, fh, c)])"
  by (simp add: download_chunk_def flaky_network_def from_bytes_big_def recv_loop.simps Let_def)

lemma one_peer_map:
  "build_chunk_availability_map [\<lparr>ip = ''10.0.0.1'', port = 6000, chunks = [0]\<rparr>] 1
     = [0 \<mapsto> [\<lparr>ip = ''10.0.0.1'', port = 6000\<rparr>]]"
  by (simp add: build_chunk_availability_map_def candidates_def)

lemma one_peer_plan:
  "create_download_plan id [0 \<mapsto> [\<lparr>ip = ''10.0.0.1'', port = 6000\<rparr>]] 1
     = [(''10.0.0.1'', 6000, 0)]"
  by (simp add: create_download_plan_def upto.simps candidates_def choice_def Let_def)

text \<open>
  C6, as stated, fails: the retry asks every candidate of the chunk, not only those other
  than the peer of the primary pass. One peer advertises the only chunk; its first answer
  fails, so the chunk is retried. No candidate other than that peer is left, yet the retry
  asks the same peer again, which now answers, and the slot is filled.
\<close>

theorem retry_asks_primary_peer_again:
  "create_download_plan id
      (build_chunk_availability_map [\<lparr>ip = ''10.0.0.1'', port = 6000, chunks = [0]\<rparr>] 1) 1
     = [(''10.0.0.1'', 6000, 0)]
   \<and> filter ((\<noteq>) \<lparr>ip = ''10.0.0.1'', port = 6000\<rparr>)
        (candidates
          (build_chunk_availability_map [\<lparr>ip = ''10.0.0.1'', port = 6000, chunks = [0]\<rparr>] 1) 0)
     = []
   \<and> fetch_chunks id (flaky_network 1) [\<lparr>ip = ''10.0.0.1'', port = 6000, chunks = [0]\<rparr>] 5 ''abc''
     = Inr \<lparr>output_chunks = [Some ''hello''], successful_downloads = 1, failed_chunks = [0],
            history = [(''10.0.0.1'', 6000, ''abc'', 0), (''10.0.0.1'', 6000, ''abc'', 0)]\<rparr>"
proof -
  have n: "(5 + CHUNK_SIZE - 1) div CHUNK_SIZE = 1" by (simp add: CHUNK_SIZE_def)
  have c: "candidates [0 \<mapsto> [\<lparr>ip = ''10.0.0.1'', port = 6000\<rparr>]] 0
      = [\<lparr>ip = ''10.0.0.1'', port = 6000\<rparr>]" by (simp add: candidates_def)
  have "fetch_chunks id (flaky_network 1) [\<lparr>ip = ''10.0.0.1'', port = 6000, chunks = [0]\<rparr>] 5 ''abc''
     = Inr \<lparr>output_chunks = [Some ''hello''], successful_downloads = 1, failed_chunks = [0],
            history = [(''10.0.0.1'', 6000, ''abc'', 0), (''10.0.0.1'', 6000, ''abc'', 0)]\<rparr>"
    unfolding fetch_chunks_def n Let_def one_peer_map one_peer_plan
    by (simp add: download_chunk_wrapper_def flaky_fails flaky_answers truthy_def c list_index_def)
  then show ?thesis by (simp add: one_peer_map one_peer_plan c)
qed

lemma two_peer_candidates:
  "candidates (build_chunk_availability_map example_peers 2) 0 = [\<lparr>ip = ''10.0.0.1'', port = 6000\<rparr>, \<lparr>ip = ''10.0.0.2'', port = 6001\<rparr>]"
  "candidates (build_chunk_availability_map example_peers 2) 1 = [\<lparr>ip = ''10.0.0.1'', port = 6000\<rparr>, \<lparr>ip = ''10.0.0.2'', port = 6001\<rparr>]"
  by (simp_all add: build_chunk_availability_map_def candidates_def example_peers_def)

lemma two_peer_plan:
  "create_download_plan id (build_chunk_availability_map example_peers 2) 2 = [(''10.0.0.1'', 6000, 0), (''10.0.0.2'', 6001, 1)]"
  by (simp add: create_download_plan_def upto.simps two_peer_candidates choice_def Let_def)

lemma two_peer_primary:
  "run_tasks (flaky_network 3) ''abc'' (create_download_plan id (build_chunk_availability_map example_peers 2) 2) [] =
     ([(0, None), (1, None)], [(''10.0.0.1'', 6000, ''abc'', 0), (''10.0.0.2'', 6001, ''abc'', 1)])"
  by (simp add: two_peer_plan download_chunk_wrapper_def flaky_fails)

lemma two_peer_run:
  "fetch_chunks id (flaky_network 3) example_peers 1048577 ''abc'' =
     Inr \<lparr>output_chunks = [Some ''hello'', Some ''hello''], successful_downloads = 2,
          failed_chunks = [0, 1],
          history = [(''10.0.0.1'', 6000, ''abc'', 0), (''10.0.0.2'', 6001, ''abc'', 1),
                     (''10.0.0.1'', 6000, ''abc'', 0), (''10.0.0.2'', 6001, ''abc'', 0),
                     (''10.0.0.1'', 6000, ''abc'', 1)]\<rparr>"
proof -
  have n: "(1048577 + CHUNK_SIZE - 1) div CHUNK_SIZE = 2" by (simp add: CHUNK_SIZE_def)
  show ?thesis
    unfolding fetch_chunks_def n Let_def two_peer_primary
    by (simp add: truthy_def two_peer_candidates list_index_def flaky_fails flaky_answers
        numeral_2_eq_2)
qed

theorem retry_pass_tries_all_candidates_witness:
  "(2 :: int) = (1048577 + CHUNK_SIZE - 1) div CHUNK_SIZE
   \<and> run_tasks (flaky_network 3) ''abc'' (create_download_plan id (build_chunk_availability_map example_peers 2) 2) [] =
       ([(0, None), (1, None)],
        [(''10.0.0.1'', 6000, ''abc'', 0), (''10.0.0.2'', 6001, ''abc'', 1)])
   \<and> (1, None) \<in> set [(0 :: int, None :: bytes option), (1, None)]
   \<and> \<not> truthy None
   \<and> (\<exists>pre post st m st'.
         [0, 1] = pre @ 1 # post
       \<and> retry_failed (flaky_network 3) ''abc'' (build_chunk_availability_map example_peers 2) pre
           \<lparr>output_chunks = [None, None], successful_downloads = 0, failed_chunks = [0, 1],
            history = [(''10.0.0.1'', 6000, ''abc'', 0), (''10.0.0.2'', 6001, ''abc'', 1)]\<rparr>
           = Inr st
       \<and> m \<le> 2
       \<and> retry_chunk (flaky_network 3) ''abc'' 1 [\<lparr>ip = ''10.0.0.1'', port = 6000\<rparr>, \<lparr>ip = ''10.0.0.2'', port = 6001\<rparr>] st = Inr st'
       \<and> history st' = history st @ map (\<lambda>p. (ip p, port p, ''abc'', 1)) (take m [\<lparr>ip = ''10.0.0.1'', port = 6000\<rparr>, \<lparr>ip = ''10.0.0.2'', port = 6001\<rparr>])
       \<and> (\<exists>j < m. truthy (attempt (flaky_network 3) (history st) ''abc'' 1 [\<lparr>ip = ''10.0.0.1'', port = 6000\<rparr>, \<lparr>ip = ''10.0.0.2'', port = 6001\<rparr>] j)))"
proof -
  let ?net = "flaky_network 3"
  let ?av = "build_chunk_availability_map example_peers 2"
  let ?cs = "[\<lparr>ip = ''10.0.0.1'', port = 6000\<rparr>, \<lparr>ip = ''10.0.0.2'', port = 6001\<rparr>]"
  let ?h = "[(''10.0.0.1'', 6000 :: int, ''abc'', 0 :: int), (''10.0.0.2'', 6001, ''abc'', 1)]"
  let ?st1 = "\<lparr>output_chunks = [None, None], successful_downloads = 0, failed_chunks = [0, 1],
            history = ?h\<rparr>"
  have h1: "(2 :: int) = (1048577 + CHUNK_SIZE - 1) div CHUNK_SIZE" by (simp add: CHUNK_SIZE_def)
  have h2: "?av = build_chunk_availability_map example_peers 2" by (rule refl)
  note h3 = two_peer_primary
  have h4: "(1, None) \<in> set [(0 :: int, None :: bytes option), (1, None)]" by simp
  have h5: "\<not> truthy None" by (simp add: truthy_def)
  note e = retry_pass_tries_all_candidates[of 2 1048577 ?av example_peers ?net "''abc''" id
      "[(0, None), (1, None)]" ?h 1 None, OF h1 h2 h3 h4 h5]
  from e obtain st1 pre post st m st' final where r:
    "collect_results [(0, None), (1, None)]
         \<lparr>output_chunks = replicate (nat 2) None, successful_downloads = 0,
          failed_chunks = [], history = ?h\<rparr> = Inr st1
     \<and> failed_chunks st1 = pre @ 1 # post
     \<and> retry_failed ?net ''abc'' ?av pre st1 = Inr st
     \<and> output_chunks st ! nat 1 = None
     \<and> m \<le> length (candidates ?av 1)
     \<and> retry_chunk ?net ''abc'' 1 (candidates ?av 1) st = Inr st'
     \<and> history st' =
         history st @ map (\<lambda>p. (ip p, port p, ''abc'', 1)) (take m (candidates ?av 1))
     \<and> (\<forall>j < m. truthy (attempt ?net (history st) ''abc'' 1 (candidates ?av 1) j) \<longrightarrow>
           Suc j = m
           \<and> output_chunks st' =
               (output_chunks st)[nat 1 := attempt ?net (history st) ''abc'' 1 (candidates ?av 1) j])
     \<and> (m < length (candidates ?av 1) \<longrightarrow>
           0 < m \<and> truthy (attempt ?net (history st) ''abc'' 1 (candidates ?av 1) (m - 1)))
     \<and> retry_failed ?net ''abc'' ?av post st' = Inr final
     \<and> fetch_chunks id ?net example_peers 1048577 ''abc'' = Inr final
     \<and> (output_chunks final ! nat 1 \<noteq> None \<longleftrightarrow>
           (\<exists>j < m. truthy (attempt ?net (history st) ''abc'' 1 (candidates ?av 1) j)))"
    by (elim exE) (rule that)
  note r0 = r[THEN conjunct1]
  note r1 = r[THEN conjunct2, THEN conjunct1]
  note r2 = r[THEN conjunct2, THEN conjunct2, THEN conjunct1]
  note r4 = r[THEN conjunct2, THEN conjunct2, THEN conjunct2, THEN conjunct2, THEN conjunct1]
  note r5 = r[THEN conjunct2, THEN conjunct2, THEN conjunct2, THEN conjunct2, THEN conjunct2, THEN conjunct1]
  note r6 = r[THEN conjunct2, THEN conjunct2, THEN conjunct2, THEN conjunct2, THEN conjunct2, THEN conjunct2, THEN conjunct1]
  note r10 = r[THEN conjunct2, THEN conjunct2, THEN conjunct2, THEN conjunct2, THEN conjunct2, THEN conjunct2, THEN conjunct2, THEN conjunct2, THEN conjunct2, THEN conjunct2, THEN conjunct1]
  note r11 = r[THEN conjunct2, THEN conjunct2, THEN conjunct2, THEN conjunct2, THEN conjunct2, THEN conjunct2, THEN conjunct2, THEN conjunct2, THEN conjunct2, THEN conjunct2, THEN conjunct2]
  have "collect_results [(0, None), (1, None)]
         \<lparr>output_chunks = replicate (nat 2) None, successful_downloads = 0,
          failed_chunks = [], history = ?h\<rparr> = Inr ?st1"
    by (simp add: truthy_def numeral_2_eq_2)
  with r0 have st1: "st1 = ?st1" by simp
  have c1: "candidates ?av 1 = ?cs" by (rule two_peer_candidates(2))
  have "final = \<lparr>output_chunks = [Some ''hello'', Some ''hello''], successful_downloads = 2,
          failed_chunks = [0, 1],
          history = [(''10.0.0.1'', 6000, ''abc'', 0), (''10.0.0.2'', 6001, ''abc'', 1),
                     (''10.0.0.1'', 6000, ''abc'', 0), (''10.0.0.2'', 6001, ''abc'', 0),
                     (''10.0.0.1'', 6000, ''abc'', 1)]\<rparr>"
    using r10 unfolding two_peer_run by simp
  then have "output_chunks final ! nat 1 \<noteq> None" by simp
  then have y: "\<exists>j < m. truthy (attempt ?net (history st) ''abc'' 1 ?cs j)"
    using r11[unfolded c1] by (rule rev_iffD1)
  have a: "[0, 1] = pre @ 1 # post" using r1 unfolding st1 by simp
  have b: "retry_failed ?net ''abc'' ?av pre ?st1 = Inr st"
    using r2 unfolding st1 .
  have c: "m \<le> 2" using r4 unfolding c1 by simp
  note d = r5[unfolded c1] r6[unfolded c1]
  have "\<exists>pre post st m st'.
         [0, 1] = pre @ 1 # post
       \<and> retry_failed ?net ''abc'' ?av pre ?st1 = Inr st
       \<and> m \<le> 2
       \<and> retry_chunk ?net ''abc'' 1 ?cs st = Inr st'
       \<and> history st' = history st @ map (\<lambda>p. (ip p, port p, ''abc'', 1)) (take m ?cs)
       \<and> (\<exists>j < m. truthy (attempt ?net (history st) ''abc'' 1 ?cs j))"
    apply (rule exI[of _ pre], rule exI[of _ post], rule exI[of _ st], rule exI[of _ m],
        rule exI[of _ st'])
    using a b c d y by (intro conjI)
  with h1 h3 h4 h5 show ?thesis by (intro conjI)
qed

end
